theory Spec2Isabelle
  imports Main
begin

section \<open>Python values shared by both modules\<close>

text \<open>
  Exceptions are values. \<open>NoResultFoundError\<close>, \<open>InvalidLLMOutputType\<close> and
  \<open>InvalidOutputValueMismatch\<close> are the three classes the pipeline raises itself;
  \<open>AttributeError\<close>, \<open>IndexError\<close> and \<open>ValueError\<close> are the built-in ones its own
  expressions can raise; \<open>OtherException\<close> is any further subclass of \<open>Exception\<close> raised
  by a collaborator or by the executed code, and \<open>NonException\<close> is a \<open>BaseException\<close>
  outside \<open>Exception\<close> (\<open>SystemExit\<close>, \<open>KeyboardInterrupt\<close>), which
  \<open>except Exception\<close> does not catch.
\<close>

datatype exc =
    NoResultFoundError string
  | InvalidLLMOutputType "string list"
  | InvalidOutputValueMismatch string
  | AttributeError
  | IndexError
  | ValueError
  | OtherException string
  | NonException string

fun is_Exception :: "exc \<Rightarrow> bool" where
  "is_Exception (NonException m) = False"
| "is_Exception e = True"

subsection \<open>Strings\<close>

text \<open>\<open>startswith s sub\<close> is Python's \<open>s.startswith(sub)\<close>.\<close>

fun startswith :: "string \<Rightarrow> string \<Rightarrow> bool" where
  "startswith s [] = True"
| "startswith [] (c # sub) = False"
| "startswith (x # s) (c # sub) = (x = c \<and> startswith s sub)"

text \<open>\<open>str_contains s sub\<close> is Python's \<open>sub in s\<close> on strings.\<close>

fun str_contains :: "string \<Rightarrow> string \<Rightarrow> bool" where
  "str_contains [] sub = (sub = [])"
| "str_contains (x # s) sub = (startswith (x # s) sub \<or> str_contains s sub)"

text \<open>
  \<open>str_index s sub\<close> is Python's \<open>s.index(sub)\<close>: the lowest position at which
  \<open>sub\<close> occurs, and \<open>ValueError\<close> when it does not occur.
\<close>

fun str_index :: "string \<Rightarrow> string \<Rightarrow> exc + nat" where
  "str_index [] sub = (if sub = [] then Inr 0 else Inl ValueError)"
| "str_index (x # s) sub =
     (if startswith (x # s) sub then Inr 0
      else case str_index s sub of Inl e \<Rightarrow> Inl e | Inr k \<Rightarrow> Inr (Suc k))"

text \<open>Decimal rendering of a natural number, as an f-string renders an index.\<close>

definition digit_char :: "nat \<Rightarrow> char" where
  "digit_char d = ''0123456789'' ! d"

function str_nat :: "nat \<Rightarrow> string" where
  "str_nat n =
     (if n < 10 then [digit_char n] else str_nat (n div 10) @ [digit_char (n mod 10)])"
  by pat_completeness auto
termination
  by (relation "measure id") auto

declare str_nat.simps [simp del]

section \<open>HuggingFaceTextGen.call\<close>

text \<open>
  Of the object, \<open>call\<close> reads \<open>streaming\<close> and \<open>stop_sequences\<close> and writes
  \<open>last_prompt\<close>. The client is a collaborator: \<open>generate\<close> returns the generated text or
  raises, \<open>generate_stream\<close> returns the chunks' templates or raises. The prompt is the
  string that \<open>prepend_system_prompt\<close> returned.
\<close>

record HuggingFaceTextGen =
  stop_sequences :: "string list"
  streaming :: bool
  last_prompt :: "string option"

text \<open>
  The loop over \<open>self.stop_sequences\<close> (lines 129 to 133): a stop sequence that occurs in
  the current text cuts the text at \<open>index(stop_seq)\<close>; the next one sees the cut text.
\<close>

fun cut_stop_sequences :: "string list \<Rightarrow> string \<Rightarrow> exc + string" where
  "cut_stop_sequences [] generated_text = Inr generated_text"
| "cut_stop_sequences (stop_seq # rest) generated_text =
     (if str_contains generated_text stop_seq
      then (case str_index generated_text stop_seq of
              Inl e \<Rightarrow> Inl e
            | Inr k \<Rightarrow> cut_stop_sequences rest (take k generated_text))
      else cut_stop_sequences rest generated_text)"

definition call ::
  "HuggingFaceTextGen \<Rightarrow> (string \<Rightarrow> exc + string) \<Rightarrow> (string \<Rightarrow> exc + string list) \<Rightarrow>
   string \<Rightarrow> exc + (string \<times> HuggingFaceTextGen)" where
  "call self generate generate_stream prompt =
     (if streaming self
      then (case generate_stream prompt of
              Inl e \<Rightarrow> Inl e
            | Inr chunks \<Rightarrow> Inr (concat chunks, self))
      else (case generate prompt of
              Inl e \<Rightarrow> Inl e
            | Inr generated_text \<Rightarrow>
                (case (if stop_sequences self = [] then Inr generated_text
                       else cut_stop_sequences (stop_sequences self) generated_text) of
                   Inl e \<Rightarrow> Inl e
                 | Inr text' \<Rightarrow> Inr (text', self\<lparr>last_prompt := Some prompt\<rparr>))))"

section \<open>CodeExecution: the objects and the namespace\<close>

text \<open>
  An element of \<open>self._dfs\<close> is an object with an identity (the number). It either is a
  \<open>pd.DataFrame\<close> or it is not (a connector, which has \<open>execute()\<close> and
  \<open>pandas_df\<close>); that is all \<open>_get_originals\<close> asks of it.
\<close>

datatype pyobj = DataFrame nat | Connector nat

text \<open>
  A value of the namespace: \<open>None\<close>, an object, a list, a bound method of an object, or
  any other value (opaque).
\<close>

datatype pyval =
    PyNone
  | PyObj pyobj
  | PyList "pyval list"
  | PyMethod pyobj string
  | PyOther string

type_synonym env = "string \<rightharpoonup> pyval"

record config =
  max_retries :: int
  use_error_correction_framework :: bool
  direct_sql :: bool

text \<open>
  What happens is recorded as a trace next to the state of the outside world \<open>'w\<close>, which
  every collaborator may read and change: an attempt (a call of \<open>execute_code\<close>), a
  connector fetch (\<open>df.execute()\<close> for the table at a position), a call of
  \<open>logger.log\<close> with its level, and the calls of \<open>on_failure\<close> and \<open>on_retry\<close>.
\<close>

datatype log_level = ERROR | WARNING

datatype event =
    Attempt string
  | Fetch nat pyobj
  | Log log_level string
  | OnFailure string string
  | OnRetry string exc

record 'w state =
  world :: 'w
  trace :: "event list"

definition emit :: "event \<Rightarrow> 'w state \<Rightarrow> 'w state" where
  "emit ev s = s\<lparr>trace := trace s @ [ev]\<rparr>"

text \<open>
  The collaborators of the stage, none of them under \<open>src/\<close>; each is a parameter.
  \<^item> \<open>get_environment\<close>: the namespace \<open>get_environment(self._additional_dependencies)\<close>;
  \<^item> \<open>connector_execute\<close>: \<open>df.execute()\<close> followed by reading \<open>df.pandas_df\<close>;
  \<^item> \<open>exec_python\<close>: \<open>exec(code, environment)\<close>, returning the namespace it leaves;
  \<^item> \<open>validate\<close>, \<open>validate_result\<close>: the two functions of \<open>OutputValidator\<close>;
  \<^item> \<open>mismatch_message\<close>: the f-string of line 95, which subscripts the result;
  \<^item> \<open>format_exc\<close>: \<open>traceback.format_exc()\<close>;
  \<^item> \<open>logger_log\<close>: \<open>self.logger.log(message, level)\<close>, which returns \<open>None\<close> or raises
    (\<open>AttributeError\<close> when no logger was passed);
  \<^item> \<open>on_failure\<close>: the notification callback, when set; it returns \<open>None\<close> or raises;
  \<^item> \<open>on_retry\<close>: the callback that returns the corrected code, when set;
  \<^item> \<open>serialize\<close>: \<open>ResponseSerializer.serialize\<close>.
  Each one that runs foreign code returns or raises, and maps the world to a new world.
\<close>

record 'w collaborators =
  get_environment :: env
  connector_execute :: "'w \<Rightarrow> pyobj \<Rightarrow> (exc + pyval) \<times> 'w"
  exec_python :: "'w \<Rightarrow> string \<Rightarrow> env \<Rightarrow> (exc + env) \<times> 'w"
  validate :: "'w \<Rightarrow> string \<Rightarrow> pyval \<Rightarrow> (exc + bool \<times> string list) \<times> 'w"
  validate_result :: "'w \<Rightarrow> pyval \<Rightarrow> (exc + bool) \<times> 'w"
  mismatch_message :: "pyval \<Rightarrow> exc + string"
  format_exc :: "exc \<Rightarrow> string"
  logger_log :: "'w \<Rightarrow> string \<Rightarrow> log_level \<Rightarrow> exc option \<times> 'w"
  on_failure :: "('w \<Rightarrow> string \<Rightarrow> string \<Rightarrow> exc option \<times> 'w) option"
  on_retry :: "('w \<Rightarrow> string \<Rightarrow> exc \<Rightarrow> (exc + string) \<times> 'w) option"
  serialize :: "pyval \<Rightarrow> exc + pyval"

text \<open>What \<open>execute\<close> copies from the pipeline context into the object.\<close>

record pipeline_context =
  dfs :: "pyobj list"
  conf :: config
  output_type :: "string option"

section \<open>CodeExecution: the dependency analyzer and the namespace\<close>

text \<open>
  The loop of lines 189 to 193: position \<open>i\<close> keeps its table when the code contains
  the text \<open>dfs[i]\<close> and becomes \<open>None\<close> otherwise.
\<close>

fun mark_required :: "string \<Rightarrow> nat \<Rightarrow> pyobj list \<Rightarrow> pyobj option list" where
  "mark_required code i [] = []"
| "mark_required code i (df # rest) =
     (if str_contains code (''dfs['' @ str_nat i @ '']'') then Some df else None)
       # mark_required code (Suc i) rest"

text \<open>
  \<open>_required_dfs\<close>. The last line is \<open>return required_dfs or self._dfs\<close>: the list when
  it is not empty, \<open>self._dfs\<close> when it is.
\<close>

definition required_dfs :: "pyobj list \<Rightarrow> string \<Rightarrow> pyobj option list" where
  "required_dfs self_dfs code =
     (if str_contains code ''for df in dfs'' \<or> str_contains code ''pd.concat(dfs''
      then map Some self_dfs
      else (let required = mark_required code 0 self_dfs
            in if required = [] then map Some self_dfs else required))"

text \<open>
  \<open>_get_originals\<close>, with the position of the slot it is at: \<open>None\<close> stays \<open>None\<close>,
  a \<open>pd.DataFrame\<close> is appended as it is, anything else is fetched
  (\<open>df.execute()\<close>) and its \<open>pandas_df\<close> appended. An exception of the fetch leaves
  the loop.
\<close>

fun get_originals ::
  "'w collaborators \<Rightarrow> nat \<Rightarrow> pyobj option list \<Rightarrow> 'w state \<Rightarrow> (exc + pyval list) \<times> 'w state" where
  "get_originals K i [] s = (Inr [], s)"
| "get_originals K i (None # rest) s =
     (case get_originals K (Suc i) rest s of
        (Inl e, s') \<Rightarrow> (Inl e, s')
      | (Inr original_dfs, s') \<Rightarrow> (Inr (PyNone # original_dfs), s'))"
| "get_originals K i (Some (DataFrame n) # rest) s =
     (case get_originals K (Suc i) rest s of
        (Inl e, s') \<Rightarrow> (Inl e, s')
      | (Inr original_dfs, s') \<Rightarrow> (Inr (PyObj (DataFrame n) # original_dfs), s'))"
| "get_originals K i (Some (Connector n) # rest) s =
     (case connector_execute K (world s) (Connector n) of
        (Inl e, w) \<Rightarrow> (Inl e, (emit (Fetch i (Connector n)) s)\<lparr>world := w\<rparr>)
      | (Inr pandas_df, w) \<Rightarrow>
          (case get_originals K (Suc i) rest ((emit (Fetch i (Connector n)) s)\<lparr>world := w\<rparr>) of
             (Inl e, s') \<Rightarrow> (Inl e, s')
           | (Inr original_dfs, s') \<Rightarrow> (Inr (pandas_df # original_dfs), s')))"

text \<open>
  Lines 152 to 159 of \<open>execute_code\<close>: the namespace handed to \<open>exec\<close>. The alias
  \<open>df\<close> is bound when \<open>len(environment["dfs"]) == 1\<close>. With \<open>direct_sql\<close>,
  \<open>self._dfs[0]\<close> raises \<open>IndexError\<close> on an empty list, and a \<open>pd.DataFrame\<close> has no
  attribute \<open>execute_direct_sql_query\<close>.
\<close>

definition build_environment ::
  "'w collaborators \<Rightarrow> pipeline_context \<Rightarrow> string \<Rightarrow> 'w state \<Rightarrow> (exc + env) \<times> 'w state" where
  "build_environment K self code s =
     (case get_originals K 0 (required_dfs (dfs self) code) s of
        (Inl e, s1) \<Rightarrow> (Inl e, s1)
      | (Inr originals, s1) \<Rightarrow>
          (let environment = (get_environment K)(''dfs'' \<mapsto> PyList originals);
               environment = (if length originals = 1
                              then environment(''df'' \<mapsto> originals ! 0) else environment)
           in if direct_sql (conf self)
              then (case dfs self of
                      [] \<Rightarrow> (Inl IndexError, s1)
                    | DataFrame n # rest \<Rightarrow> (Inl AttributeError, s1)
                    | Connector n # rest \<Rightarrow>
                        (Inr (environment(''execute_sql_query'' \<mapsto>
                                PyMethod (Connector n) ''execute_direct_sql_query'')), s1))
              else (Inr environment, s1)))"

text \<open>
  \<open>execute_code\<close>: build the namespace, run the code in it, and read the binding
  \<open>result\<close> of the namespace that the run leaves.
\<close>

definition execute_code ::
  "'w collaborators \<Rightarrow> pipeline_context \<Rightarrow> string \<Rightarrow> 'w state \<Rightarrow> (exc + pyval) \<times> 'w state" where
  "execute_code K self code s =
     (case build_environment K self code (emit (Attempt code) s) of
        (Inl e, s1) \<Rightarrow> (Inl e, s1)
      | (Inr environment, s1) \<Rightarrow>
          (case exec_python K (world s1) code environment of
             (Inl e, w) \<Rightarrow> (Inl e, s1\<lparr>world := w\<rparr>)
           | (Inr environment', w) \<Rightarrow>
               (case environment' ''result'' of
                  None \<Rightarrow> (Inl (NoResultFoundError ''No result returned''), s1\<lparr>world := w\<rparr>)
                | Some v \<Rightarrow> (Inr v, s1\<lparr>world := w\<rparr>))))"

section \<open>CodeExecution: validation and the retry loop\<close>

text \<open>
  Lines 83 to 91: the declared output type is checked when
  \<open>context.get("output_type")\<close> is neither \<open>""\<close> nor falsy.
\<close>

definition check_output_type ::
  "'w collaborators \<Rightarrow> pipeline_context \<Rightarrow> pyval \<Rightarrow> 'w state \<Rightarrow> exc option \<times> 'w state" where
  "check_output_type K self result s =
     (case output_type self of
        None \<Rightarrow> (None, s)
      | Some output_helper \<Rightarrow>
          if output_helper = [] then (None, s)
          else (case validate K (world s) output_helper result of
                  (Inl e, w) \<Rightarrow> (Some e, s\<lparr>world := w\<rparr>)
                | (Inr (validation_ok, validation_errors), w) \<Rightarrow>
                    if validation_ok then (None, s\<lparr>world := w\<rparr>)
                    else (Some (InvalidLLMOutputType validation_errors), s\<lparr>world := w\<rparr>)))"

text \<open>Lines 93 to 96.\<close>

definition check_result ::
  "'w collaborators \<Rightarrow> pyval \<Rightarrow> 'w state \<Rightarrow> exc option \<times> 'w state" where
  "check_result K result s =
     (case validate_result K (world s) result of
        (Inl e, w) \<Rightarrow> (Some e, s\<lparr>world := w\<rparr>)
      | (Inr ok, w) \<Rightarrow>
          if ok then (None, s\<lparr>world := w\<rparr>)
          else (case mismatch_message K result of
                  Inl e \<Rightarrow> (Some e, s\<lparr>world := w\<rparr>)
                | Inr m \<Rightarrow> (Some (InvalidOutputValueMismatch m), s\<lparr>world := w\<rparr>)))"

text \<open>
  The body of the \<open>try\<close> (lines 82 to 98). It returns the exception it raised, if
  any, and the value of the variable \<open>result\<close>, which is assigned as soon as
  \<open>execute_code\<close> returns.
\<close>

definition try_body ::
  "'w collaborators \<Rightarrow> pipeline_context \<Rightarrow> string \<Rightarrow> pyval \<Rightarrow> 'w state \<Rightarrow>
   (exc option \<times> pyval) \<times> 'w state" where
  "try_body K self code_to_run result s =
     (case execute_code K self code_to_run s of
        (Inl e, s1) \<Rightarrow> ((Some e, result), s1)
      | (Inr r, s1) \<Rightarrow>
          (case check_output_type K self r s1 of
             (Some e, s2) \<Rightarrow> ((Some e, r), s2)
           | (None, s2) \<Rightarrow>
               (case check_result K r s2 of
                  (Some e, s3) \<Rightarrow> ((Some e, r), s3)
                | (None, s3) \<Rightarrow> ((None, r), s3))))"

text \<open>\<open>_retry_run_code\<close>: the corrected code of \<open>on_retry\<close>, or the exception again.\<close>

definition retry_run_code ::
  "'w collaborators \<Rightarrow> string \<Rightarrow> exc \<Rightarrow> 'w state \<Rightarrow> (exc + string) \<times> 'w state" where
  "retry_run_code K code e s =
     (case on_retry K of
        Some f \<Rightarrow>
          (case f (world s) code e of
             (r, w) \<Rightarrow> (r, (emit (OnRetry code e) s)\<lparr>world := w\<rparr>))
      | None \<Rightarrow> (Inl e, s))"

text \<open>
  A call of \<open>self.logger.log\<close>: \<open>Some e\<close> when the call raises \<open>e\<close>.
\<close>

definition logger ::
  "'w collaborators \<Rightarrow> string \<Rightarrow> log_level \<Rightarrow> 'w state \<Rightarrow> exc option \<times> 'w state" where
  "logger K msg level s =
     (case logger_log K (world s) msg level of
        (r, w) \<Rightarrow> (r, (emit (Log level msg) s)\<lparr>world := w\<rparr>))"

text \<open>
  The head of the \<open>except\<close> clause (lines 101 to 104): the traceback is logged and
  handed to \<open>on_failure\<close> when that callback is set. Both calls stand inside the
  \<open>except\<close> clause, so an exception of either leaves \<open>execute\<close>: the result is \<open>Some\<close>
  of it. Lines 114 to 118: the warning that carries the retry number.
\<close>

definition notify_failure ::
  "'w collaborators \<Rightarrow> string \<Rightarrow> exc \<Rightarrow> 'w state \<Rightarrow> exc option \<times> 'w state" where
  "notify_failure K code_to_run e s =
     (let traceback_errors = format_exc K e
      in case logger K (''Failed with error: '' @ traceback_errors) ERROR s of
           (Some e', s') \<Rightarrow> (Some e', s')
         | (None, s') \<Rightarrow>
             (case on_failure K of
                None \<Rightarrow> (None, s')
              | Some f \<Rightarrow>
                  (case f (world s') code_to_run traceback_errors of
                     (r, w) \<Rightarrow>
                       (r, (emit (OnFailure code_to_run traceback_errors) s')\<lparr>world := w\<rparr>))))"

definition log_retry ::
  "'w collaborators \<Rightarrow> int \<Rightarrow> 'w state \<Rightarrow> exc option \<times> 'w state" where
  "log_retry K retry_count s =
     logger K (''Failed to execute code retrying with a correction framework [retry number: ''
               @ str_nat (nat retry_count) @ '']'') WARNING s"

text \<open>
  The \<open>while\<close> loop of \<open>execute\<close> (lines 80 to 124), from the values of
  \<open>retry_count\<close>, \<open>code_to_run\<close> and \<open>result\<close> at the loop's head. \<open>Inr\<close> is the value
  of \<open>result\<close> when the loop is left by \<open>break\<close> or by its condition, \<open>Inl\<close> the
  exception that leaves \<open>execute\<close>.
\<close>

function execute_loop ::
  "'w collaborators \<Rightarrow> pipeline_context \<Rightarrow> int \<Rightarrow> string \<Rightarrow> pyval \<Rightarrow> 'w state \<Rightarrow>
   (exc + pyval) \<times> 'w state" where
  "execute_loop K self retry_count code_to_run result s =
     (if retry_count \<le> max_retries (conf self)
      then (case try_body K self code_to_run result s of
              ((None, result'), s1) \<Rightarrow> (Inr result', s1)
            | ((Some e, result'), s1) \<Rightarrow>
                if \<not> is_Exception e then (Inl e, s1)
                else
                  (case notify_failure K code_to_run e s1 of
                     (Some e', s2) \<Rightarrow> (Inl e', s2)
                   | (None, s2) \<Rightarrow>
                       if \<not> use_error_correction_framework (conf self)
                          \<or> retry_count \<ge> max_retries (conf self)
                       then (Inl e, s2)
                       else
                         (case log_retry K (retry_count + 1) s2 of
                            (Some e', s3) \<Rightarrow> (Inl e', s3)
                          | (None, s3) \<Rightarrow>
                              (case retry_run_code K code_to_run e s3 of
                                 (Inl e', s4) \<Rightarrow> (Inl e', s4)
                               | (Inr code', s4) \<Rightarrow>
                                   execute_loop K self (retry_count + 1) code' result' s4))))
      else (Inr result, s))"
  by pat_completeness auto
termination
  by (relation "measure (\<lambda>(K, self, retry_count, code_to_run, result, s).
                  nat (max_retries (conf self) - retry_count + 1))") auto

declare execute_loop.simps [simp del]

text \<open>The value \<open>execute\<close> returns: the fields of \<open>LogicUnitOutput\<close>.\<close>

record logic_unit_output =
  output_value :: pyval
  success :: bool
  message :: string
  metadata :: "(string \<times> pyval) list"
  final_track_output :: bool

definition execute ::
  "'w collaborators \<Rightarrow> pipeline_context \<Rightarrow> string \<Rightarrow> 'w state \<Rightarrow>
   (exc + logic_unit_output) \<times> 'w state" where
  "execute K self input s =
     (case execute_loop K self 0 input PyNone s of
        (Inl e, s1) \<Rightarrow> (Inl e, s1)
      | (Inr result, s1) \<Rightarrow>
          (case serialize K result of
             Inl e \<Rightarrow> (Inl e, s1)
           | Inr v \<Rightarrow>
               (Inr \<lparr>output_value = result, success = True,
                     message = ''Code Executed Successfully'',
                     metadata = [(''content_type'', PyOther ''response''), (''value'', v)],
                     final_track_output = True\<rparr>, s1)))"

text \<open>The number of calls of \<open>execute_code\<close> in a trace.\<close>

fun is_Attempt :: "event \<Rightarrow> bool" where
  "is_Attempt (Attempt code) = True"
| "is_Attempt ev = False"

definition attempts :: "event list \<Rightarrow> nat" where
  "attempts tr = length (filter is_Attempt tr)"

section \<open>CodeExecution: the provenance utilities\<close>

text \<open>
  The syntax tree, as far as the two utilities look at it (Python 3.9 and later, where
  the \<open>slice\<close> of a subscript is the index expression itself). \<open>Call\<close>,
  \<open>Subscript\<close>, \<open>Name\<close>, \<open>Constant\<close> and \<open>Attribute\<close> are the classes of \<open>ast\<close>;
  \<open>Slice\<close> is \<open>a:b\<close>; \<open>Starred\<close> stands for the other classes that have a field
  \<open>value\<close> and \<open>BinOp\<close> for those that have none.
\<close>

datatype const = CInt int | CStr string | CBool bool | CNone

datatype expr =
    Call expr "expr list"
  | Subscript expr expr
  | Name string
  | Constant const
  | Attribute expr string
  | Slice
  | Starred expr
  | BinOp expr expr

text \<open>
  What reading a field of a node gives, and what the generator yields: a string (an
  identifier or attribute name), the value of a literal, or a node.
\<close>

datatype token = TStr string | TConst const | TNode expr

text \<open>\<open>node.value\<close>, \<open>node.slice\<close> and \<open>x.id\<close>; a missing field is \<open>AttributeError\<close>.\<close>

fun attr_value :: "expr \<Rightarrow> exc + token" where
  "attr_value (Subscript base index) = Inr (TNode base)"
| "attr_value (Constant c) = Inr (TConst c)"
| "attr_value (Attribute obj a) = Inr (TNode obj)"
| "attr_value (Starred e) = Inr (TNode e)"
| "attr_value e = Inl AttributeError"

fun attr_slice :: "expr \<Rightarrow> exc + expr" where
  "attr_slice (Subscript base index) = Inr index"
| "attr_slice e = Inl AttributeError"

fun attr_id :: "token \<Rightarrow> exc + string" where
  "attr_id (TNode (Name x)) = Inr x"
| "attr_id t = Inl AttributeError"

text \<open>
  \<open>_tokenize_operand\<close> is a generator: the result is the tokens it yields, in order,
  and the exception that ends it, if one does. For a subscript, \<open>slice.value\<close> is read
  before the base is tokenized and yielded after it.
\<close>

fun tokenize_operand :: "expr \<Rightarrow> token list \<times> exc option" where
  "tokenize_operand (Call func args) =
     (case func of
        Attribute obj a \<Rightarrow> ([TStr a], None)
      | _ \<Rightarrow> ([], Some AttributeError))"
| "tokenize_operand (Subscript base index) =
     (case attr_value index of
        Inl e \<Rightarrow> ([], Some e)
      | Inr slice_ \<Rightarrow>
          (case tokenize_operand base of
             (ts, Some e) \<Rightarrow> (ts, Some e)
           | (ts, None) \<Rightarrow> (ts @ [slice_], None)))"
| "tokenize_operand (Name x) = ([TStr x], None)"
| "tokenize_operand (Constant c) = ([TConst c], None)"
| "tokenize_operand e = ([], None)"

text \<open>An \<open>ast.Assign\<close> node: its line, its targets and its right-hand side.\<close>

record assign =
  lineno :: int
  targets :: "expr list"
  rhs :: expr

text \<open>
  How an f-string renders a token. A node is rendered by its default \<open>repr\<close>, which
  holds a memory address; the text here stands for it.
\<close>

fun str_int :: "int \<Rightarrow> string" where
  "str_int i = (if i < 0 then CHR ''-'' # str_nat (nat (- i)) else str_nat (nat i))"

fun format_token :: "token \<Rightarrow> string" where
  "format_token (TStr x) = x"
| "format_token (TConst (CInt i)) = str_int i"
| "format_token (TConst (CStr x)) = x"
| "format_token (TConst (CBool b)) = (if b then ''True'' else ''False'')"
| "format_token (TConst CNone) = ''None''"
| "format_token (TNode e) = ''<ast node>''"

text \<open>
  The body of the \<open>try\<close> of lines 308 to 312 for one assignment. \<open>Inr (Some l)\<close>: the
  label \<open>l\<close> is assigned to \<open>nearest_assignment\<close>; \<open>Inr None\<close>: nothing is assigned (the
  condition is false, or an \<open>AttributeError\<close> was caught); \<open>Inl\<close>: another exception,
  which the \<open>except\<close> clause does not catch (\<open>targets[0]\<close> of an empty list).
\<close>

fun is_Subscript :: "expr \<Rightarrow> bool" where
  "is_Subscript (Subscript base index) = True"
| "is_Subscript e = False"

definition try_assignment :: "string \<Rightarrow> assign \<Rightarrow> exc + string option" where
  "try_assignment target_name assignment =
     (let is_subscript = is_Subscript (rhs assignment)
      in case attr_value (rhs assignment) of
           Inl e \<Rightarrow> Inr None
         | Inr v \<Rightarrow>
             (case attr_id v of
                Inl e \<Rightarrow> Inr None
              | Inr right_id \<Rightarrow>
                  (case targets assignment of
                     [] \<Rightarrow> Inl IndexError
                   | target # others \<Rightarrow>
                       (case attr_id (TNode target) of
                          Inl e \<Rightarrow> Inr None
                        | Inr target_id \<Rightarrow>
                            if is_subscript \<and> right_id = ''dfs'' \<and> target_id = target_name
                            then (case attr_slice (rhs assignment) of
                                    Inl e \<Rightarrow> Inr None
                                  | Inr index \<Rightarrow>
                                      (case attr_value index of
                                         Inl e \<Rightarrow> Inr None
                                       | Inr v \<Rightarrow>
                                           Inr (Some (''dfs['' @ format_token v @ '']''))))
                            else Inr None))))"

text \<open>
  The \<open>for\<close> loop of lines 304 to 314 over the sorted assignments. The function's text
  ends with the loop: when the loop runs to its end, the function returns \<open>None\<close>.
\<close>

fun scan_assignments ::
  "int \<Rightarrow> string \<Rightarrow> string option \<Rightarrow> assign list \<Rightarrow> exc + string option" where
  "scan_assignments current_lineno target_name nearest_assignment [] = Inr None"
| "scan_assignments current_lineno target_name nearest_assignment (assignment # rest) =
     (if lineno assignment > current_lineno then Inr nearest_assignment
      else case try_assignment target_name assignment of
             Inl e \<Rightarrow> Inl e
           | Inr None \<Rightarrow> scan_assignments current_lineno target_name nearest_assignment rest
           | Inr (Some l) \<Rightarrow> scan_assignments current_lineno target_name (Some l) rest)"

text \<open>
  \<open>_get_df_id_by_nearest_assignment\<close>; \<open>sorted\<close> is stable, as \<open>sort_key\<close> is.
\<close>

definition get_df_id_by_nearest_assignment ::
  "int \<Rightarrow> assign list \<Rightarrow> string \<Rightarrow> exc + string option" where
  "get_df_id_by_nearest_assignment current_lineno assignments target_name =
     scan_assignments current_lineno target_name None (sort_key lineno assignments)"

section \<open>The specification's wording, for comparison\<close>

text \<open>
  What the specification says a stop sequence does: a stop sequence present in the text
  cuts the text at its first occurrence; one that is absent leaves the text as it is.
\<close>

definition cut_at :: "string \<Rightarrow> string \<Rightarrow> string" where
  "cut_at body stop_seq =
     (case str_index body stop_seq of Inr k \<Rightarrow> take k body | Inl e \<Rightarrow> body)"

text \<open>
  The access chains the specification describes for \<open>tokenize\<close>: a call of an
  attribute, a subscript of a chain by a literal, a bare name, a literal; and the tokens
  it lists for each, base first and index last.
\<close>

fun access_chain :: "expr \<Rightarrow> bool" where
  "access_chain (Call (Attribute obj a) args) = True"
| "access_chain (Subscript base (Constant c)) = access_chain base"
| "access_chain (Name x) = True"
| "access_chain (Constant c) = True"
| "access_chain e = False"

fun spec_tokenize :: "expr \<Rightarrow> token list" where
  "spec_tokenize (Call (Attribute obj a) args) = [TStr a]"
| "spec_tokenize (Subscript base (Constant c)) = spec_tokenize base @ [TConst c]"
| "spec_tokenize (Name x) = [TStr x]"
| "spec_tokenize (Constant c) = [TConst c]"
| "spec_tokenize e = []"

text \<open>
  What the specification says of the materialization, for a list in which no table is
  filtered out: in list order, a table already in memory passes through unchanged and a
  lazily-backed table is fetched and its in-memory projection used; the first fetch
  that raises ends it. \<open>spec_fetches i tables\<close> are the fetches this makes when none
  raises: one for each lazily-backed table, at its position, counted from \<open>i\<close>.
\<close>

fun spec_materialize ::
  "'w collaborators \<Rightarrow> pyobj list \<Rightarrow> 'w \<Rightarrow> (exc + pyval list) \<times> 'w" where
  "spec_materialize K [] w = (Inr [], w)"
| "spec_materialize K (DataFrame n # rest) w =
     (case spec_materialize K rest w of
        (Inl e, w') \<Rightarrow> (Inl e, w')
      | (Inr projections, w') \<Rightarrow> (Inr (PyObj (DataFrame n) # projections), w'))"
| "spec_materialize K (Connector n # rest) w =
     (case connector_execute K w (Connector n) of
        (Inl e, w') \<Rightarrow> (Inl e, w')
      | (Inr pandas_df, w') \<Rightarrow>
          (case spec_materialize K rest w' of
             (Inl e, w'') \<Rightarrow> (Inl e, w'')
           | (Inr projections, w'') \<Rightarrow> (Inr (pandas_df # projections), w'')))"

fun spec_fetches :: "nat \<Rightarrow> pyobj list \<Rightarrow> event list" where
  "spec_fetches i [] = []"
| "spec_fetches i (DataFrame n # rest) = spec_fetches (Suc i) rest"
| "spec_fetches i (Connector n # rest) = Fetch i (Connector n) # spec_fetches (Suc i) rest"

section \<open>Concrete collaborators for the examples\<close>

text \<open>
  The world is \<open>unit\<close>. A fetch returns a data frame whose identity is the connector's
  plus 100, or is refused; the executed code raises, binds nothing, or binds \<open>result\<close>;
  the validators accept, or the second rejects; the logger and the failure callback
  return, or the callback raises; the corrector returns the code it was given.
\<close>

definition fetch_frame :: "unit \<Rightarrow> pyobj \<Rightarrow> (exc + pyval) \<times> unit" where
  "fetch_frame w df =
     (case df of
        Connector n \<Rightarrow> (Inr (PyObj (DataFrame (100 + n))), w)
      | DataFrame n \<Rightarrow> (Inr (PyObj (DataFrame n)), w))"

definition refusing_fetch :: "unit \<Rightarrow> pyobj \<Rightarrow> (exc + pyval) \<times> unit" where
  "refusing_fetch w df = (Inl (OtherException ''connection refused''), w)"

definition failing_exec :: "unit \<Rightarrow> string \<Rightarrow> env \<Rightarrow> (exc + env) \<times> unit" where
  "failing_exec w code environment = (Inl (OtherException ''boom''), w)"

definition idle_exec :: "unit \<Rightarrow> string \<Rightarrow> env \<Rightarrow> (exc + env) \<times> unit" where
  "idle_exec w code environment = (Inr environment, w)"

definition binding_exec :: "unit \<Rightarrow> string \<Rightarrow> env \<Rightarrow> (exc + env) \<times> unit" where
  "binding_exec w code environment = (Inr (environment(''result'' \<mapsto> PyOther ''42'')), w)"

definition accept_output ::
  "unit \<Rightarrow> string \<Rightarrow> pyval \<Rightarrow> (exc + bool \<times> string list) \<times> unit" where
  "accept_output w output_helper result = (Inr (True, []), w)"

definition accept_result :: "unit \<Rightarrow> pyval \<Rightarrow> (exc + bool) \<times> unit" where
  "accept_result w result = (Inr True, w)"

definition reject_result :: "unit \<Rightarrow> pyval \<Rightarrow> (exc + bool) \<times> unit" where
  "reject_result w result = (Inr False, w)"

definition quiet_log :: "unit \<Rightarrow> string \<Rightarrow> log_level \<Rightarrow> exc option \<times> unit" where
  "quiet_log w msg level = (None, w)"

definition quiet_callback :: "unit \<Rightarrow> string \<Rightarrow> string \<Rightarrow> exc option \<times> unit" where
  "quiet_callback w code traceback_errors = (None, w)"

definition raising_callback :: "unit \<Rightarrow> string \<Rightarrow> string \<Rightarrow> exc option \<times> unit" where
  "raising_callback w code traceback_errors = (Some (OtherException ''callback failed''), w)"

definition same_code :: "unit \<Rightarrow> string \<Rightarrow> exc \<Rightarrow> (exc + string) \<times> unit" where
  "same_code w code e = (Inr code, w)"

definition fixed_text :: "string \<Rightarrow> 'a \<Rightarrow> exc + string" where
  "fixed_text reply x = Inr reply"

definition no_chunks :: "string \<Rightarrow> exc + string list" where
  "no_chunks prompt = Inr []"

definition show_traceback :: "exc \<Rightarrow> string" where
  "show_traceback e = ''Traceback (most recent call last)''"

definition example_collaborators ::
  "(unit \<Rightarrow> string \<Rightarrow> env \<Rightarrow> (exc + env) \<times> unit) \<Rightarrow> unit collaborators" where
  "example_collaborators ex =
     \<lparr>get_environment = Map.empty, connector_execute = fetch_frame, exec_python = ex,
      validate = accept_output, validate_result = accept_result,
      mismatch_message = fixed_text ''mismatch'', format_exc = show_traceback,
      logger_log = quiet_log, on_failure = Some quiet_callback,
      on_retry = Some same_code, serialize = Inr\<rparr>"

text \<open>
  Variants: a failure callback that raises, a validator that rejects the result, and
  connectors that refuse the fetch.
\<close>

definition callback_raises :: "unit collaborators" where
  "callback_raises = (example_collaborators failing_exec)\<lparr>on_failure := Some raising_callback\<rparr>"

definition result_rejected :: "unit collaborators" where
  "result_rejected = (example_collaborators binding_exec)\<lparr>validate_result := reject_result\<rparr>"

definition fetch_refused :: "unit collaborators" where
  "fetch_refused = (example_collaborators binding_exec)\<lparr>connector_execute := refusing_fetch\<rparr>"

definition example_context :: "pyobj list \<Rightarrow> int \<Rightarrow> bool \<Rightarrow> pipeline_context" where
  "example_context tables n correct =
     \<lparr>dfs = tables,
      conf = \<lparr>max_retries = n, use_error_correction_framework = correct, direct_sql = False\<rparr>,
      output_type = None\<rparr>"

definition start :: "unit state" where
  "start = \<lparr>world = (), trace = []\<rparr>"

definition example_llm :: "string list \<Rightarrow> HuggingFaceTextGen" where
  "example_llm stops = \<lparr>stop_sequences = stops, streaming = False, last_prompt = None\<rparr>"

lemmas example_defs =
  example_collaborators_def example_context_def start_def failing_exec_def idle_exec_def
  binding_exec_def accept_output_def accept_result_def reject_result_def same_code_def
  fixed_text_def fetch_frame_def refusing_fetch_def show_traceback_def quiet_log_def
  quiet_callback_def raising_callback_def callback_raises_def result_rejected_def
  fetch_refused_def emit_def

section \<open>Substrings and the first occurrence\<close>

lemma startswith_iff: "startswith s sub \<longleftrightarrow> (\<exists>ss. s = sub @ ss)"
  by (induction s sub rule: startswith.induct) auto

lemma str_contains_iff: "str_contains s sub \<longleftrightarrow> (\<exists>ps ss. s = ps @ sub @ ss)"
proof (induction s)
  case Nil
  then show ?case by auto
next
  case (Cons x s)
  show ?case
  proof
    assume "str_contains (x # s) sub"
    then consider "startswith (x # s) sub" | "str_contains s sub" by auto
    then show "\<exists>ps ss. x # s = ps @ sub @ ss"
    proof cases
      case 1
      then obtain ss where "x # s = sub @ ss" by (auto simp: startswith_iff)
      then have "x # s = [] @ sub @ ss" by simp
      then show ?thesis by blast
    next
      case 2
      then obtain ps ss where "s = ps @ sub @ ss" using Cons.IH by auto
      then have "x # s = (x # ps) @ sub @ ss" by simp
      then show ?thesis by blast
    qed
  next
    assume "\<exists>ps ss. x # s = ps @ sub @ ss"
    then obtain ps ss where eq: "x # s = ps @ sub @ ss" by auto
    show "str_contains (x # s) sub"
    proof (cases ps)
      case Nil
      with eq have "startswith (x # s) sub" by (auto simp: startswith_iff)
      then show ?thesis by simp
    next
      case (Cons p ps')
      with eq have "s = ps' @ sub @ ss" by simp
      then have "str_contains s sub" using Cons.IH by blast
      then show ?thesis by simp
    qed
  qed
qed

lemma str_index_contains: "str_contains s sub \<longleftrightarrow> (\<exists>k. str_index s sub = Inr k)"
  by (induction s) (auto split: sum.splits)

lemma str_index_le: "str_index s sub = Inr k \<Longrightarrow> k \<le> length s"
  by (induction s arbitrary: k) (auto split: sum.splits if_splits)

lemma startswith_take: "startswith (take k s) sub \<Longrightarrow> startswith s sub"
  by (metis append.assoc append_take_drop_id startswith_iff)

lemma str_contains_take: "sub \<noteq> [] \<Longrightarrow> str_contains (take k s) sub \<Longrightarrow> str_contains s sub"
  by (metis append.assoc append_take_drop_id str_contains_iff)

lemma str_index_cut:
  "sub \<noteq> [] \<Longrightarrow> str_index s sub = Inr k \<Longrightarrow> \<not> str_contains (take k s) sub"
proof (induction s arbitrary: k)
  case Nil
  then show ?case by simp
next
  case (Cons x s)
  show ?case
  proof (cases "startswith (x # s) sub")
    case True
    with Cons.prems show ?thesis by simp
  next
    case False
    with Cons.prems obtain j where j: "str_index s sub = Inr j" and k: "k = Suc j"
      by (auto split: sum.splits)
    have "\<not> str_contains (take j s) sub" using Cons.IH Cons.prems(1) j by blast
    moreover have "\<not> startswith (x # take j s) sub"
      using False startswith_take [of "Suc j" "x # s" sub] by auto
    ultimately show ?thesis using k by simp
  qed
qed

lemma cut_at_free: "sub \<noteq> [] \<Longrightarrow> \<not> str_contains (cut_at s sub) sub"
proof (cases "str_index s sub")
  case (Inl e)
  then have "\<not> str_contains s sub" by (simp add: str_index_contains)
  with Inl show ?thesis by (simp add: cut_at_def)
next
  case (Inr k)
  assume "sub \<noteq> []"
  with Inr show ?thesis by (simp add: cut_at_def str_index_cut)
qed

lemma cut_at_prefix: "\<exists>k. cut_at s sub = take k s"
  by (cases "str_index s sub") (auto simp: cut_at_def intro: exI [of _ "length s"])

lemma cut_stop_sequences_foldl:
  "cut_stop_sequences stops gen = Inr (foldl cut_at gen stops)"
  by (induction stops arbitrary: gen)
     (auto simp: cut_at_def str_index_contains split: sum.splits)

lemma foldl_cut_at_prefix: "\<exists>k. foldl cut_at gen stops = take k gen"
proof (induction stops arbitrary: gen)
  case Nil
  show ?case by (auto intro: exI [of _ "length gen"])
next
  case (Cons a stops)
  obtain k where k: "cut_at gen a = take k gen" using cut_at_prefix by blast
  obtain j where "foldl cut_at (cut_at gen a) stops = take j (cut_at gen a)"
    using Cons.IH by blast
  show ?case
    using \<open>foldl cut_at (cut_at gen a) stops = take j (cut_at gen a)\<close> k
    by (auto intro: exI [of _ "min j k"])
qed

lemma foldl_cut_at_keeps_free:
  "sub \<noteq> [] \<Longrightarrow> \<not> str_contains gen sub \<Longrightarrow> \<not> str_contains (foldl cut_at gen stops) sub"
  using foldl_cut_at_prefix [of gen stops] str_contains_take by metis

lemma foldl_cut_at_free:
  "sub \<in> set stops \<Longrightarrow> sub \<noteq> [] \<Longrightarrow> \<not> str_contains (foldl cut_at gen stops) sub"
proof (induction stops arbitrary: gen)
  case Nil
  then show ?case by simp
next
  case (Cons a stops)
  show ?case
  proof (cases "sub = a")
    case True
    then show ?thesis using cut_at_free [of a gen] foldl_cut_at_keeps_free Cons.prems by simp
  next
    case False
    then show ?thesis using Cons by simp
  qed
qed

lemma str_index_first:
  "str_index s sub = Inr k \<Longrightarrow>
   startswith (drop k s) sub \<and> (\<forall>j<k. \<not> startswith (drop j s) sub)"
proof (induction s arbitrary: k)
  case Nil
  then show ?case by (auto split: if_splits)
next
  case (Cons x s)
  show ?case
  proof (cases "startswith (x # s) sub")
    case True
    with Cons.prems show ?thesis by simp
  next
    case False
    with Cons.prems obtain i where i: "str_index s sub = Inr i" and k: "k = Suc i"
      by (auto split: sum.splits)
    from Cons.IH [OF i] have here: "startswith (drop i s) sub"
      and before: "\<forall>j<i. \<not> startswith (drop j s) sub" by auto
    have "\<not> startswith (drop j (x # s)) sub" if "j < Suc i" for j
      using that False before by (cases j) auto
    with here k show ?thesis by simp
  qed
qed

section \<open>HuggingFaceTextGen.call: stop sequences\<close>

text \<open>
  Claim C10, as the code has it. A call that does not stream and whose client returns
  \<open>generated_text\<close> returns the text cut by the stop sequences in list order, each one
  that occurs in the current text cutting it at its first occurrence (\<open>cut_at\<close>); the
  result is a prefix of the generated text, and no stop sequence other than the empty
  string occurs in it.
\<close>

theorem call_cuts_at_stop_sequences:
  assumes "\<not> streaming self" and "generate prompt = Inr generated_text"
  shows "\<exists>t. call self generate generate_stream prompt = Inr (t, self\<lparr>last_prompt := Some prompt\<rparr>)
           \<and> t = foldl cut_at generated_text (stop_sequences self)
           \<and> (\<exists>k. t = take k generated_text)
           \<and> (\<forall>stop_seq \<in> set (stop_sequences self).
                 stop_seq \<noteq> [] \<longrightarrow> \<not> str_contains t stop_seq)"
  using assms foldl_cut_at_prefix [of generated_text "stop_sequences self"]
  by (auto simp: call_def cut_stop_sequences_foldl foldl_cut_at_free)

theorem call_cuts_at_stop_sequences_witness:
  "call (example_llm [''</s>'', ''END'']) (fixed_text ''x = 1END y</s>'') no_chunks ''q''
     = Inr (''x = 1'', (example_llm [''</s>'', ''END''])\<lparr>last_prompt := Some ''q''\<rparr>)
   \<and> \<not> str_contains ''x = 1'' ''</s>'' \<and> \<not> str_contains ''x = 1'' ''END''"
  using call_cuts_at_stop_sequences
    [of "example_llm [''</s>'', ''END'']" "fixed_text ''x = 1END y</s>''" "''q''"
        "''x = 1END y</s>''" no_chunks]
  by (simp add: cut_at_def example_llm_def fixed_text_def)

text \<open>
  Claim C10 as stated fails for the empty stop sequence: \<open>"" in text\<close> holds,
  \<open>text.index("")\<close> is 0, the text is cut to \<open>""\<close>, and \<open>""\<close> occurs in \<open>""\<close>.
\<close>

theorem call_empty_stop_sequence:
  "call (example_llm ['''']) (fixed_text ''abc'') no_chunks ''q''
     = Inr ('''', (example_llm [''''])\<lparr>last_prompt := Some ''q''\<rparr>)
   \<and> str_contains '''' ''''"
  by (simp add: call_def example_llm_def fixed_text_def)

section \<open>The trace of one attempt\<close>

lemma trace_emit [simp]: "trace (emit ev s) = trace s @ [ev]"
  by (simp add: emit_def)

lemma world_emit [simp]: "world (emit ev s) = world s"
  by (simp add: emit_def)

lemma length_mark_required [simp]: "length (mark_required code i tables) = length tables"
  by (induction tables arbitrary: i) auto

lemma nth_mark_required:
  "j < length tables \<Longrightarrow>
   mark_required code i tables ! j =
     (if str_contains code (''dfs['' @ str_nat (i + j) @ '']'') then Some (tables ! j) else None)"
proof (induction tables arbitrary: i j)
  case Nil
  then show ?case by simp
next
  case (Cons df rest)
  show ?case
  proof (cases j)
    case 0
    then show ?thesis by simp
  next
    case (Suc j')
    with Cons.prems have "j' < length rest" by simp
    from Cons.IH [OF this, of "Suc i"] Suc show ?thesis by simp
  qed
qed

lemma length_required_dfs [simp]: "length (required_dfs tables code) = length tables"
  by (simp add: required_dfs_def Let_def)

lemma fetch_shift:
  assumes "\<forall>ev \<in> set evs. \<exists>j n. ev = Fetch (Suc i + j) (Connector n) \<and> j < length rest
                             \<and> rest ! j = Some (Connector n)"
  shows "\<forall>ev \<in> set evs. \<exists>j n. ev = Fetch (i + j) (Connector n) \<and> j < length (x # rest)
                             \<and> (x # rest) ! j = Some (Connector n)"
proof
  fix ev assume "ev \<in> set evs"
  with assms obtain j n where "ev = Fetch (Suc i + j) (Connector n)" "j < length rest"
    "rest ! j = Some (Connector n)" by blast
  then have "ev = Fetch (i + Suc j) (Connector n) \<and> Suc j < length (x # rest)
               \<and> (x # rest) ! Suc j = Some (Connector n)" by simp
  then show "\<exists>j n. ev = Fetch (i + j) (Connector n) \<and> j < length (x # rest)
               \<and> (x # rest) ! j = Some (Connector n)" by blast
qed

text \<open>
  \<open>_get_originals\<close> only appends to the trace, and what it appends are fetches of
  connectors at their positions in the list.
\<close>

lemma get_originals_trace:
  "get_originals K i xs s = (r, s') \<Longrightarrow>
   \<exists>evs. trace s' = trace s @ evs \<and>
         (\<forall>ev \<in> set evs. \<exists>j n. ev = Fetch (i + j) (Connector n) \<and> j < length xs
                             \<and> xs ! j = Some (Connector n))"
proof (induction K i xs s arbitrary: r s' rule: get_originals.induct)
  case (1 K i s)
  then show ?case by simp
next
  case (2 K i rest s)
  obtain r0 s0 where g: "get_originals K (Suc i) rest s = (r0, s0)" by fastforce
  from 2 g have "s' = s0" by (auto split: sum.splits)
  with "2.IH" [OF g] fetch_shift [of _ i rest None] show ?case by blast
next
  case (3 K i m rest s)
  obtain r0 s0 where g: "get_originals K (Suc i) rest s = (r0, s0)" by fastforce
  from 3 g have "s' = s0" by (auto split: sum.splits)
  with "3.IH" [OF g] fetch_shift [of _ i rest "Some (DataFrame m)"] show ?case by blast
next
  case (4 K i m rest s)
  let ?xs = "Some (Connector m) # rest"
  let ?s1 = "\<lambda>w. (emit (Fetch i (Connector m)) s)\<lparr>world := w\<rparr>"
  have here: "\<exists>j n. Fetch i (Connector m) = Fetch (i + j) (Connector n) \<and> j < length ?xs
                \<and> ?xs ! j = Some (Connector n)"
    by (rule exI [of _ 0]) simp
  obtain c w where c: "connector_execute K (world s) (Connector m) = (c, w)" by fastforce
  show ?case
  proof (cases c)
    case (Inl e)
    with c "4.prems" have "trace s' = trace s @ [Fetch i (Connector m)]" by auto
    moreover have "\<forall>ev \<in> set [Fetch i (Connector m)]. \<exists>j n. ev = Fetch (i + j) (Connector n)
        \<and> j < length ?xs \<and> ?xs ! j = Some (Connector n)" using here by simp
    ultimately show ?thesis by blast
  next
    case (Inr pandas_df)
    obtain r0 s0 where g: "get_originals K (Suc i) rest (?s1 w) = (r0, s0)" by fastforce
    from "4.prems" c Inr g have "s' = s0" by (auto split: sum.splits)
    from "4.IH" [OF c [symmetric] Inr g] obtain evs where evs: "trace s0 = trace (?s1 w) @ evs"
      and all: "\<forall>ev \<in> set evs. \<exists>j n. ev = Fetch (Suc i + j) (Connector n) \<and> j < length rest
                             \<and> rest ! j = Some (Connector n)" by blast
    have "\<forall>ev \<in> set (Fetch i (Connector m) # evs). \<exists>j n. ev = Fetch (i + j) (Connector n)
            \<and> j < length ?xs \<and> ?xs ! j = Some (Connector n)"
      using here fetch_shift [OF all, of "Some (Connector m)"] by simp
    moreover have "trace s' = trace s @ (Fetch i (Connector m) # evs)"
      using evs \<open>s' = s0\<close> by simp
    ultimately show ?thesis by blast
  qed
qed

text \<open>
  On a list in which every slot holds its table, \<open>_get_originals\<close> is the
  materialization of the specification: the same result and world, and as new events the
  fetches of \<open>spec_fetches\<close>, or a non-empty initial part of them when a fetch raises.
\<close>

lemma get_originals_all:
  "get_originals K i (map Some tables) s = (r, s') \<Longrightarrow>
   spec_materialize K tables (world s) = (r, world s')
   \<and> (case r of
         Inr originals \<Rightarrow> trace s' = trace s @ spec_fetches i tables
       | Inl e \<Rightarrow> \<exists>k<length (spec_fetches i tables).
                   trace s' = trace s @ take (Suc k) (spec_fetches i tables))"
proof (induction tables arbitrary: i s r s')
  case Nil
  then show ?case by auto
next
  case (Cons t tables)
  show ?case
  proof (cases t)
    case (DataFrame n)
    obtain r0 s0 where g: "get_originals K (Suc i) (map Some tables) s = (r0, s0)"
      by fastforce
    note IH = Cons.IH [OF g]
    show ?thesis
    proof (cases r0)
      case (Inl e)
      with Cons.prems DataFrame g have "r = Inl e" "s' = s0" by auto
      with IH Inl DataFrame show ?thesis by auto
    next
      case (Inr vs)
      with Cons.prems DataFrame g have "r = Inr (PyObj (DataFrame n) # vs)" "s' = s0" by auto
      with IH Inr DataFrame show ?thesis by auto
    qed
  next
    case (Connector n)
    let ?s1 = "\<lambda>w. (emit (Fetch i (Connector n)) s)\<lparr>world := w\<rparr>"
    obtain c w where c: "connector_execute K (world s) (Connector n) = (c, w)" by fastforce
    show ?thesis
    proof (cases c)
      case (Inl e)
      with Cons.prems Connector c have r: "r = Inl e" and s': "s' = ?s1 w" by auto
      have "0 < length (spec_fetches i (t # tables))
            \<and> trace s' = trace s @ take (Suc 0) (spec_fetches i (t # tables))"
        using s' Connector by simp
      then have "\<exists>k<length (spec_fetches i (t # tables)).
                   trace s' = trace s @ take (Suc k) (spec_fetches i (t # tables))" by blast
      moreover have "spec_materialize K (t # tables) (world s) = (r, world s')"
        using r s' Connector c Inl by simp
      ultimately show ?thesis using r by simp
    next
      case (Inr pandas_df)
      obtain r0 s0 where g: "get_originals K (Suc i) (map Some tables) (?s1 w) = (r0, s0)"
        by fastforce
      from Cons.IH [OF g]
      have m: "spec_materialize K tables w = (r0, world s0)"
        and tr: "case r0 of
                   Inr originals \<Rightarrow> trace s0 = trace (?s1 w) @ spec_fetches (Suc i) tables
                 | Inl e \<Rightarrow> \<exists>k<length (spec_fetches (Suc i) tables).
                     trace s0 = trace (?s1 w) @ take (Suc k) (spec_fetches (Suc i) tables)"
        by simp_all
      show ?thesis
      proof (cases r0)
        case (Inl e)
        with Cons.prems Connector c Inr g have r: "r = Inl e" and s': "s' = s0" by auto
        from tr Inl obtain k where k: "k < length (spec_fetches (Suc i) tables)"
          and t0: "trace s0 = trace (?s1 w) @ take (Suc k) (spec_fetches (Suc i) tables)"
          by auto
        have "Suc k < length (spec_fetches i (t # tables))
              \<and> trace s' = trace s @ take (Suc (Suc k)) (spec_fetches i (t # tables))"
          using k t0 s' Connector by simp
        then have "\<exists>k<length (spec_fetches i (t # tables)).
                   trace s' = trace s @ take (Suc k) (spec_fetches i (t # tables))" by blast
        moreover have "spec_materialize K (t # tables) (world s) = (r, world s')"
          using r s' Connector c Inr m Inl by simp
        ultimately show ?thesis using r by simp
      next
        case vs: (Inr vs)
        with Cons.prems Connector c Inr g have r: "r = Inr (pandas_df # vs)" and s': "s' = s0"
          by auto
        have "trace s' = trace s @ spec_fetches i (t # tables)"
          using tr vs s' Connector by simp
        moreover have "spec_materialize K (t # tables) (world s) = (r, world s')"
          using r s' Connector c Inr m vs by simp
        ultimately show ?thesis using r by simp
      qed
    qed
  qed
qed

text \<open>
  What \<open>spec_fetches\<close> holds: a fetch for every lazily-backed table at its position, for
  nothing else, and for none twice.
\<close>

lemma spec_fetches_mem:
  "j < length tables \<Longrightarrow> tables ! j = Connector n \<Longrightarrow>
   Fetch (i + j) (Connector n) \<in> set (spec_fetches i tables)"
proof (induction i tables arbitrary: j rule: spec_fetches.induct)
  case (1 i)
  then show ?case by simp
next
  case (2 i m rest)
  then obtain j' where "j = Suc j'" by (cases j) auto
  with 2 show ?case by auto
next
  case (3 i m rest)
  show ?case
  proof (cases j)
    case 0
    with 3 show ?thesis by simp
  next
    case (Suc j')
    with 3 show ?thesis by auto
  qed
qed

lemma spec_fetches_only:
  "ev \<in> set (spec_fetches i tables) \<Longrightarrow>
   \<exists>j n. ev = Fetch (i + j) (Connector n) \<and> j < length tables \<and> tables ! j = Connector n"
proof (induction i tables rule: spec_fetches.induct)
  case (1 i)
  then show ?case by simp
next
  case (2 i m rest)
  then obtain j n where "ev = Fetch (Suc i + j) (Connector n)" "j < length rest"
    "rest ! j = Connector n" by auto
  then have "ev = Fetch (i + Suc j) (Connector n) \<and> Suc j < length (DataFrame m # rest)
             \<and> (DataFrame m # rest) ! Suc j = Connector n" by simp
  then show ?case by blast
next
  case (3 i m rest)
  show ?case
  proof (cases "ev = Fetch i (Connector m)")
    case True
    then have "ev = Fetch (i + 0) (Connector m) \<and> 0 < length (Connector m # rest)
               \<and> (Connector m # rest) ! 0 = Connector m" by simp
    then show ?thesis by blast
  next
    case False
    with 3 obtain j n where "ev = Fetch (Suc i + j) (Connector n)" "j < length rest"
      "rest ! j = Connector n" by auto
    then have "ev = Fetch (i + Suc j) (Connector n) \<and> Suc j < length (Connector m # rest)
               \<and> (Connector m # rest) ! Suc j = Connector n" by simp
    then show ?thesis by blast
  qed
qed

lemma spec_fetches_distinct: "distinct (spec_fetches i tables)"
proof (induction i tables rule: spec_fetches.induct)
  case (3 i m rest)
  have "Fetch i (Connector m) \<notin> set (spec_fetches (Suc i) rest)"
    using spec_fetches_only [of "Fetch i (Connector m)" "Suc i" rest] by auto
  with 3 show ?case by simp
qed simp_all

lemma get_originals_length:
  "get_originals K i xs s = (Inr vs, s') \<Longrightarrow> length vs = length xs"
  by (induction K i xs s arbitrary: vs s' rule: get_originals.induct)
     (auto split: sum.splits prod.splits)

lemma build_environment_trace:
  assumes "build_environment K self code s = (r, s')"
  shows "\<exists>r0. get_originals K 0 (required_dfs (dfs self) code) s = (r0, s')"
  using assms
  by (auto simp: build_environment_def Let_def split: prod.splits sum.splits if_splits list.splits pyobj.splits)

lemma execute_code_trace:
  "\<exists>r0 s1. get_originals K 0 (required_dfs (dfs self) code) (emit (Attempt code) s) = (r0, s1)
      \<and> trace (snd (execute_code K self code s)) = trace s1"
proof -
  obtain r s1 where b: "build_environment K self code (emit (Attempt code) s) = (r, s1)"
    by fastforce
  from build_environment_trace [OF b] obtain r0 where
    "get_originals K 0 (required_dfs (dfs self) code) (emit (Attempt code) s) = (r0, s1)" by blast
  moreover have "trace (snd (execute_code K self code s)) = trace s1"
    using b by (auto simp: execute_code_def split: sum.splits prod.splits option.splits)
  ultimately show ?thesis by blast
qed

lemma attempts_append [simp]: "attempts (xs @ ys) = attempts xs + attempts ys"
  by (simp add: attempts_def)

lemma attempts_fetches:
  "\<forall>ev \<in> set evs. \<exists>j n. ev = Fetch j n \<Longrightarrow> attempts evs = 0"
  by (induction evs) (auto simp: attempts_def)

lemma execute_code_attempts:
  "attempts (trace (snd (execute_code K self code s))) = Suc (attempts (trace s))"
proof -
  obtain r0 s1 where
    g: "get_originals K 0 (required_dfs (dfs self) code) (emit (Attempt code) s) = (r0, s1)"
    and t: "trace (snd (execute_code K self code s)) = trace s1"
    using execute_code_trace by blast
  from get_originals_trace [OF g] obtain evs where
    evs: "trace s1 = trace (emit (Attempt code) s) @ evs"
    and all: "\<forall>ev \<in> set evs. \<exists>j n. ev = Fetch (0 + j) (Connector n)
                \<and> j < length (required_dfs (dfs self) code)
                \<and> required_dfs (dfs self) code ! j = Some (Connector n)" by blast
  from all have "\<forall>ev \<in> set evs. \<exists>j n. ev = Fetch j n" by blast
  then have "attempts evs = 0" by (rule attempts_fetches)
  with t evs show ?thesis by (simp add: attempts_def)
qed

lemma check_output_type_trace [simp]:
  "trace (snd (check_output_type K self r s)) = trace s"
  by (simp add: check_output_type_def split: option.splits sum.splits prod.splits)

lemma check_result_trace [simp]: "trace (snd (check_result K r s)) = trace s"
  by (simp add: check_result_def split: sum.splits prod.splits)

lemma try_body_attempts:
  "attempts (trace (snd (try_body K self code result s))) = Suc (attempts (trace s))"
proof -
  obtain r s1 where e: "execute_code K self code s = (r, s1)" by fastforce
  have s1: "attempts (trace s1) = Suc (attempts (trace s))"
    using execute_code_attempts [of K self code s] e by simp
  show ?thesis
  proof (cases r)
    case (Inl x)
    with e s1 show ?thesis by (simp add: try_body_def)
  next
    case (Inr v)
    obtain o1 s2 where c1: "check_output_type K self v s1 = (o1, s2)" by fastforce
    obtain o2 s3 where c2: "check_result K v s2 = (o2, s3)" by fastforce
    have "trace s2 = trace s1" using check_output_type_trace [of K self v s1] c1 by simp
    moreover have "trace s3 = trace s2" using check_result_trace [of K v s2] c2 by simp
    ultimately show ?thesis using e Inr c1 c2 s1
      by (auto simp: try_body_def split: option.splits)
  qed
qed

lemma retry_run_code_attempts [simp]:
  "attempts (trace (snd (retry_run_code K code e s))) = attempts (trace s)"
  by (simp add: retry_run_code_def attempts_def split: option.splits prod.splits)

lemma logger_attempts [simp]:
  "attempts (trace (snd (logger K msg level s))) = attempts (trace s)"
  by (simp add: logger_def attempts_def split: prod.splits)

lemma logger_attempts_eq:
  "logger K msg level s = (r, s') \<Longrightarrow> attempts (trace s') = attempts (trace s)"
  using logger_attempts [of K msg level s] by simp

lemma notify_failure_attempts [simp]:
  "attempts (trace (snd (notify_failure K code e s))) = attempts (trace s)"
proof -
  obtain r s' where l: "logger K (''Failed with error: '' @ format_exc K e) ERROR s = (r, s')"
    by fastforce
  have "attempts (trace s') = attempts (trace s)"
    using l by (rule logger_attempts_eq)
  then show ?thesis
    using l by (auto simp: notify_failure_def Let_def attempts_def split: option.splits prod.splits)
qed

lemma log_retry_attempts [simp]:
  "attempts (trace (snd (log_retry K n s))) = attempts (trace s)"
  by (simp add: log_retry_def)

section \<open>One iteration of the retry loop\<close>

lemma execute_loop_exit:
  "\<not> retry_count \<le> max_retries (conf self) \<Longrightarrow>
   execute_loop K self retry_count code result s = (Inr result, s)"
  by (simp add: execute_loop.simps)

lemma execute_loop_break:
  "retry_count \<le> max_retries (conf self) \<Longrightarrow>
   try_body K self code result s = ((None, r'), s1) \<Longrightarrow>
   execute_loop K self retry_count code result s = (Inr r', s1)"
  by (simp add: execute_loop.simps)

lemma execute_loop_uncaught:
  "retry_count \<le> max_retries (conf self) \<Longrightarrow>
   try_body K self code result s = ((Some e, r'), s1) \<Longrightarrow> \<not> is_Exception e \<Longrightarrow>
   execute_loop K self retry_count code result s = (Inl e, s1)"
  by (simp add: execute_loop.simps)

lemma execute_loop_notify_raises:
  "retry_count \<le> max_retries (conf self) \<Longrightarrow>
   try_body K self code result s = ((Some e, r'), s1) \<Longrightarrow> is_Exception e \<Longrightarrow>
   notify_failure K code e s1 = (Some e', s2) \<Longrightarrow>
   execute_loop K self retry_count code result s = (Inl e', s2)"
  by (subst execute_loop.simps) simp

lemma execute_loop_raise:
  "retry_count \<le> max_retries (conf self) \<Longrightarrow>
   try_body K self code result s = ((Some e, r'), s1) \<Longrightarrow> is_Exception e \<Longrightarrow>
   notify_failure K code e s1 = (None, s2) \<Longrightarrow>
   \<not> use_error_correction_framework (conf self) \<or> max_retries (conf self) \<le> retry_count \<Longrightarrow>
   execute_loop K self retry_count code result s = (Inl e, s2)"
  by (subst execute_loop.simps) auto

lemma execute_loop_log_raises:
  "retry_count \<le> max_retries (conf self) \<Longrightarrow>
   try_body K self code result s = ((Some e, r'), s1) \<Longrightarrow> is_Exception e \<Longrightarrow>
   notify_failure K code e s1 = (None, s2) \<Longrightarrow>
   use_error_correction_framework (conf self) \<Longrightarrow> retry_count < max_retries (conf self) \<Longrightarrow>
   log_retry K (retry_count + 1) s2 = (Some e', s3) \<Longrightarrow>
   execute_loop K self retry_count code result s = (Inl e', s3)"
  by (subst execute_loop.simps) auto

lemma execute_loop_no_correction:
  "retry_count \<le> max_retries (conf self) \<Longrightarrow>
   try_body K self code result s = ((Some e, r'), s1) \<Longrightarrow> is_Exception e \<Longrightarrow>
   notify_failure K code e s1 = (None, s2) \<Longrightarrow>
   use_error_correction_framework (conf self) \<Longrightarrow> retry_count < max_retries (conf self) \<Longrightarrow>
   log_retry K (retry_count + 1) s2 = (None, s3) \<Longrightarrow>
   retry_run_code K code e s3 = (Inl e', s4) \<Longrightarrow>
   execute_loop K self retry_count code result s = (Inl e', s4)"
  by (subst execute_loop.simps) auto

lemma execute_loop_retry:
  "retry_count \<le> max_retries (conf self) \<Longrightarrow>
   try_body K self code result s = ((Some e, r'), s1) \<Longrightarrow> is_Exception e \<Longrightarrow>
   notify_failure K code e s1 = (None, s2) \<Longrightarrow>
   use_error_correction_framework (conf self) \<Longrightarrow> retry_count < max_retries (conf self) \<Longrightarrow>
   log_retry K (retry_count + 1) s2 = (None, s3) \<Longrightarrow>
   retry_run_code K code e s3 = (Inr code', s4) \<Longrightarrow>
   execute_loop K self retry_count code result s
     = execute_loop K self (retry_count + 1) code' r' s4"
  by (subst execute_loop.simps) auto

lemma execute_loop_attempts:
  "int (attempts (trace (snd (execute_loop K self retry_count code result s))))
     \<le> int (attempts (trace s))
        + (if retry_count \<le> max_retries (conf self)
           then max_retries (conf self) - retry_count + 1 else 0)"
proof (induction "nat (max_retries (conf self) - retry_count + 1)"
         arbitrary: retry_count code result s)
  case 0
  then have "\<not> retry_count \<le> max_retries (conf self)" by simp
  then show ?case by (simp add: execute_loop_exit)
next
  case (Suc k)
  then have head: "retry_count \<le> max_retries (conf self)" by simp
  obtain x r' s1 where tb: "try_body K self code result s = ((x, r'), s1)"
    by (metis surj_pair)
  have s1: "attempts (trace s1) = Suc (attempts (trace s))"
    using try_body_attempts [of K self code result s] tb by simp
  show ?case
  proof (cases x)
    case None
    with head tb s1 show ?thesis by (simp add: execute_loop_break)
  next
    case (Some e)
    note fail = tb [unfolded Some]
    show ?thesis
    proof (cases "is_Exception e")
      case False
      with head tb Some s1 show ?thesis by (simp add: execute_loop_uncaught)
    next
      case caught: True
      obtain n s2 where nf: "notify_failure K code e s1 = (n, s2)" by fastforce
      have s2: "attempts (trace s2) = Suc (attempts (trace s))"
        using notify_failure_attempts [of K code e s1] nf s1 by simp
      show ?thesis
      proof (cases n)
        case (Some e')
        from execute_loop_notify_raises [OF head fail caught nf [unfolded Some]] s2 head
        show ?thesis by simp
      next
        case None
        note quiet = nf [unfolded None]
        show ?thesis
        proof (cases "\<not> use_error_correction_framework (conf self)
                       \<or> max_retries (conf self) \<le> retry_count")
          case True
          from execute_loop_raise [OF head fail caught quiet True] s2 head
          show ?thesis by simp
        next
          case False
          then have use: "use_error_correction_framework (conf self)"
            and less: "retry_count < max_retries (conf self)" by auto
          obtain l s3 where lr: "log_retry K (retry_count + 1) s2 = (l, s3)" by fastforce
          have s3: "attempts (trace s3) = Suc (attempts (trace s))"
            using log_retry_attempts [of K "retry_count + 1" s2] lr s2 by simp
          show ?thesis
          proof (cases l)
            case (Some e')
            from execute_loop_log_raises [OF head fail caught quiet use less lr [unfolded Some]]
              s3 head show ?thesis by simp
          next
            case None
            note logged = lr [unfolded None]
            obtain c s4 where rr: "retry_run_code K code e s3 = (c, s4)" by fastforce
            have s4: "attempts (trace s4) = Suc (attempts (trace s))"
              using retry_run_code_attempts [of K code e s3] rr s3 by simp
            show ?thesis
            proof (cases c)
              case (Inl e')
              from execute_loop_no_correction
                     [OF head fail caught quiet use less logged rr [unfolded Inl]]
                s4 head show ?thesis by simp
            next
              case (Inr code')
              have k: "k = nat (max_retries (conf self) - (retry_count + 1) + 1)"
                using Suc.hyps(2) by simp
              from Suc.hyps(1) [OF k, of code' r' s4]
                execute_loop_retry [OF head fail caught quiet use less logged rr [unfolded Inr]]
                s4 less
              show ?thesis by simp
            qed
          qed
        qed
      qed
    qed
  qed
qed

section \<open>The retry controller\<close>

lemma ex_required: "required_dfs [DataFrame 0] ''result = 1'' = [None]"
  by code_simp

lemma ex_try_body:
  "try_body (example_collaborators failing_exec) (example_context [DataFrame 0] n c)
      ''result = 1'' r s
     = ((Some (OtherException ''boom''), r), emit (Attempt ''result = 1'') s)"
  by (simp add: try_body_def execute_code_def build_environment_def ex_required example_defs)

lemma ex_notify_failure:
  "fst (notify_failure (example_collaborators ex) code e s) = None"
  by (simp add: notify_failure_def Let_def logger_def example_collaborators_def quiet_log_def
        quiet_callback_def)

lemma ex_log_retry:
  "fst (log_retry (example_collaborators ex) n s) = None"
  by (simp add: log_retry_def logger_def example_collaborators_def quiet_log_def)

lemma ex_retry_run_code:
  "retry_run_code (example_collaborators ex) code e s = (Inr code, emit (OnRetry code e) s)"
  by (simp add: retry_run_code_def example_collaborators_def same_code_def emit_def)

text \<open>
  Claim C1. Whatever the collaborators do (the executed code, the validators, the
  connectors, the logger, the callbacks, the corrector), with \<open>max_retries \<ge> 0\<close> one
  call of \<open>execute\<close> adds at most \<open>max_retries + 1\<close> calls of \<open>execute_code\<close> to the
  trace.
\<close>

theorem attempts_bounded:
  assumes "0 \<le> max_retries (conf self)"
  shows "int (attempts (trace (snd (execute K self input s))))
           \<le> int (attempts (trace s)) + max_retries (conf self) + 1"
proof -
  obtain r s1 where l: "execute_loop K self 0 input PyNone s = (r, s1)" by fastforce
  have "trace (snd (execute K self input s)) = trace s1"
    using l by (simp add: execute_def split: sum.splits)
  moreover have "int (attempts (trace s1)) \<le> int (attempts (trace s)) + max_retries (conf self) + 1"
    using execute_loop_attempts [of K self 0 input PyNone s] l assms by simp
  ultimately show ?thesis by simp
qed

theorem attempts_bounded_witness:
  "(0::int) \<le> 2 \<and>
   int (attempts (trace (snd (execute (example_collaborators failing_exec)
          (example_context [DataFrame 0] 2 True) ''result = 1'' start)))) \<le> 3"
  using attempts_bounded [of "example_context [DataFrame 0] 2 True"
          "example_collaborators failing_exec" "''result = 1''" start]
  by (simp add: example_context_def start_def attempts_def)

text \<open>
  The bound is reached: code that always raises, with a corrector that returns it
  unchanged and \<open>max_retries = 2\<close>, is run three times.
\<close>

lemma attempts_Nil [simp]: "attempts [] = 0"
  by (simp add: attempts_def)

lemma attempts_Cons [simp]:
  "attempts (ev # evs) = (if is_Attempt ev then 1 else 0) + attempts evs"
  by (simp add: attempts_def)

lemma ex_loop_retry:
  assumes "retry_count < 2" and "0 \<le> retry_count"
  shows "\<exists>s'. execute_loop (example_collaborators failing_exec)
                (example_context [DataFrame 0] 2 True) retry_count ''result = 1'' r s
         = execute_loop (example_collaborators failing_exec) (example_context [DataFrame 0] 2 True)
             (retry_count + 1) ''result = 1'' r s'
         \<and> attempts (trace s') = Suc (attempts (trace s))"
proof -
  let ?K = "example_collaborators failing_exec"
  let ?e = "OtherException ''boom''"
  obtain s2 where nf: "notify_failure ?K ''result = 1'' ?e (emit (Attempt ''result = 1'') s)
                         = (None, s2)"
    using ex_notify_failure [of failing_exec "''result = 1''" ?e "emit (Attempt ''result = 1'') s"]
    by (cases "notify_failure ?K ''result = 1'' ?e (emit (Attempt ''result = 1'') s)") auto
  obtain s3 where lr: "log_retry ?K (retry_count + 1) s2 = (None, s3)"
    using ex_log_retry [of failing_exec "retry_count + 1" s2]
    by (cases "log_retry ?K (retry_count + 1) s2") auto
  have "attempts (trace s2) = Suc (attempts (trace s))"
    using notify_failure_attempts [of ?K "''result = 1''" ?e "emit (Attempt ''result = 1'') s"] nf
    by (simp add: attempts_def)
  moreover have "attempts (trace s3) = attempts (trace s2)"
    using log_retry_attempts [of ?K "retry_count + 1" s2] lr by simp
  ultimately have "attempts (trace (emit (OnRetry ''result = 1'' ?e) s3)) = Suc (attempts (trace s))"
    by simp
  moreover have "execute_loop ?K (example_context [DataFrame 0] 2 True) retry_count ''result = 1'' r s
      = execute_loop ?K (example_context [DataFrame 0] 2 True) (retry_count + 1) ''result = 1'' r
          (emit (OnRetry ''result = 1'' ?e) s3)"
    using assms
    by (intro execute_loop_retry [OF _ ex_try_body _ nf _ _ lr ex_retry_run_code])
       (simp_all add: example_context_def)
  ultimately show ?thesis by blast
qed

lemma ex_loop_last:
  "\<exists>s'. execute_loop (example_collaborators failing_exec) (example_context [DataFrame 0] 2 True)
           2 ''result = 1'' r s = (Inl (OtherException ''boom''), s')
        \<and> attempts (trace s') = Suc (attempts (trace s))"
proof -
  let ?K = "example_collaborators failing_exec"
  let ?e = "OtherException ''boom''"
  obtain s2 where nf: "notify_failure ?K ''result = 1'' ?e (emit (Attempt ''result = 1'') s)
                         = (None, s2)"
    using ex_notify_failure [of failing_exec "''result = 1''" ?e "emit (Attempt ''result = 1'') s"]
    by (cases "notify_failure ?K ''result = 1'' ?e (emit (Attempt ''result = 1'') s)") auto
  have "attempts (trace s2) = Suc (attempts (trace s))"
    using notify_failure_attempts [of ?K "''result = 1''" ?e "emit (Attempt ''result = 1'') s"] nf
    by (simp add: attempts_def)
  moreover have "execute_loop ?K (example_context [DataFrame 0] 2 True) 2 ''result = 1'' r s
                   = (Inl ?e, s2)"
    by (intro execute_loop_raise [OF _ ex_try_body _ nf]) (simp_all add: example_context_def)
  ultimately show ?thesis by blast
qed

lemma three_attempts:
  "attempts (trace (snd (execute (example_collaborators failing_exec)
          (example_context [DataFrame 0] 2 True) ''result = 1'' start))) = 3"
proof -
  let ?loop = "execute_loop (example_collaborators failing_exec)
                 (example_context [DataFrame 0] 2 True)"
  obtain s1 where 1: "?loop 0 ''result = 1'' PyNone start = ?loop 1 ''result = 1'' PyNone s1"
    and a1: "attempts (trace s1) = Suc (attempts (trace start))"
    using ex_loop_retry [of 0 PyNone start] by auto
  obtain s2 where 2: "?loop 1 ''result = 1'' PyNone s1 = ?loop 2 ''result = 1'' PyNone s2"
    and a2: "attempts (trace s2) = Suc (attempts (trace s1))"
    using ex_loop_retry [of 1 PyNone s1] by auto
  obtain s3 where 3: "?loop 2 ''result = 1'' PyNone s2 = (Inl (OtherException ''boom''), s3)"
    and a3: "attempts (trace s3) = Suc (attempts (trace s2))"
    using ex_loop_last [of PyNone s2] by auto
  have "?loop 0 ''result = 1'' PyNone start = (Inl (OtherException ''boom''), s3)"
    using 1 2 3 by simp
  then have "trace (snd (execute (example_collaborators failing_exec)
          (example_context [DataFrame 0] 2 True) ''result = 1'' start)) = trace s3"
    by (simp add: execute_def)
  with a1 a2 a3 show ?thesis by (simp add: start_def attempts_def)
qed

text \<open>
  Claim C2, as the code has it. At any head of the loop inside the budget, when the
  attempt fails with \<open>e\<close> (an exception of the executed code, of the namespace
  construction or of a validator) and error correction is disabled or \<open>retry_count\<close> has
  reached \<open>max_retries\<close>, the loop ends with an exception and never with a result. The
  exception is \<open>e\<close> itself when \<open>e\<close> is not an \<open>Exception\<close> (it is not caught) and when the
  logger and \<open>on_failure\<close> return; when one of the two raises inside the \<open>except\<close>
  clause, it is the exception they raise. \<open>execute\<close> ends the same way when this is
  its first attempt.
\<close>

theorem failed_attempt_reraised:
  assumes "retry_count \<le> max_retries (conf self)"
    and "try_body K self code result s = ((Some e, r'), s1)"
    and "\<not> use_error_correction_framework (conf self) \<or> max_retries (conf self) \<le> retry_count"
  shows "fst (execute_loop K self retry_count code result s)
           = Inl (case (if is_Exception e then fst (notify_failure K code e s1) else None) of
                    None \<Rightarrow> e
                  | Some e' \<Rightarrow> e')
         \<and> (retry_count = 0 \<and> result = PyNone \<longrightarrow>
              fst (execute K self code s)
                = Inl (case (if is_Exception e then fst (notify_failure K code e s1) else None) of
                         None \<Rightarrow> e
                       | Some e' \<Rightarrow> e'))"
proof -
  let ?raised = "case (if is_Exception e then fst (notify_failure K code e s1) else None) of
                   None \<Rightarrow> e | Some e' \<Rightarrow> e'"
  have loop: "fst (execute_loop K self retry_count code result s) = Inl ?raised"
  proof (cases "is_Exception e")
    case False
    from execute_loop_uncaught [OF assms(1,2) False] False show ?thesis by simp
  next
    case True
    obtain n s2 where nf: "notify_failure K code e s1 = (n, s2)" by fastforce
    show ?thesis
    proof (cases n)
      case None
      from execute_loop_raise [OF assms(1,2) True nf [unfolded None] assms(3)] True nf None
      show ?thesis by simp
    next
      case (Some e')
      from execute_loop_notify_raises [OF assms(1,2) True nf [unfolded Some]] True nf Some
      show ?thesis by simp
    qed
  qed
  then show ?thesis
    by (cases "execute_loop K self retry_count code result s") (auto simp: execute_def)
qed

text \<open>
  The witness is a validator failure: the code binds \<open>result\<close>, \<open>validate_result\<close>
  rejects it, and with error correction disabled \<open>InvalidOutputValueMismatch\<close> leaves
  \<open>execute\<close>.
\<close>

lemma ex_required_bound: "required_dfs [DataFrame 10] ''result = 42'' = [None]"
  by code_simp

lemma ex_try_body_rejected:
  "try_body result_rejected (example_context [DataFrame 10] n c) ''result = 42'' r s
     = ((Some (InvalidOutputValueMismatch ''mismatch''), PyOther ''42''),
        emit (Attempt ''result = 42'') s)"
  by (simp add: try_body_def execute_code_def build_environment_def ex_required_bound
        check_output_type_def check_result_def example_defs)

lemma ex_notify_failure_rejected:
  "fst (notify_failure result_rejected code e s) = None"
  by (simp add: notify_failure_def Let_def logger_def example_defs)

theorem failed_attempt_reraised_witness:
  "fst (execute_loop result_rejected (example_context [DataFrame 10] 2 False)
          0 ''result = 42'' PyNone start) = Inl (InvalidOutputValueMismatch ''mismatch'')
   \<and> fst (execute result_rejected (example_context [DataFrame 10] 2 False)
          ''result = 42'' start) = Inl (InvalidOutputValueMismatch ''mismatch'')"
  using failed_attempt_reraised [OF _ ex_try_body_rejected, of 0 2 False PyNone start]
  by (simp add: example_context_def ex_notify_failure_rejected)

text \<open>
  Claim C2 as stated fails when \<open>on_failure\<close> raises: the attempt fails with
  \<open>boom\<close>, error correction is disabled, and the exception of the callback reaches the
  caller in place of the original error.
\<close>

theorem callback_error_replaces_original:
  "fst (fst (try_body callback_raises (example_context [DataFrame 0] 2 False)
               ''result = 1'' PyNone start)) = Some (OtherException ''boom'')
   \<and> fst (execute callback_raises (example_context [DataFrame 0] 2 False) ''result = 1'' start)
       = Inl (OtherException ''callback failed'')"
proof -
  let ?C = "example_context [DataFrame 0] 2 False"
  have tb: "try_body callback_raises ?C ''result = 1'' PyNone start
              = ((Some (OtherException ''boom''), PyNone), emit (Attempt ''result = 1'') start)"
    by (simp add: try_body_def execute_code_def build_environment_def ex_required example_defs)
  obtain s2 where nf: "notify_failure callback_raises ''result = 1'' (OtherException ''boom'')
                         (emit (Attempt ''result = 1'') start)
                       = (Some (OtherException ''callback failed''), s2)"
    by (simp add: notify_failure_def Let_def logger_def example_defs)
  have "execute_loop callback_raises ?C 0 ''result = 1'' PyNone start
          = (Inl (OtherException ''callback failed''), s2)"
    by (intro execute_loop_notify_raises [OF _ tb _ nf]) (simp_all add: example_context_def)
  then show ?thesis using tb by (simp add: execute_def)
qed

section \<open>The dependency analyzer and the fetches\<close>

text \<open>
  Claim C3 fails on the code. With one table and code that uses only the alias
  \<open>df\<close>, the loop has appended one \<open>None\<close>, so \<open>required_dfs\<close> is \<open>[None]\<close>: a
  non-empty list, which \<open>required_dfs or self._dfs\<close> returns as it is. The table list is
  returned only when it is empty.
\<close>

theorem fallback_never_taken:
  "required_dfs [Connector 0] ''result = df.shape'' = [None]"
  by code_simp

lemma required_dfs_all_absent:
  assumes "tables \<noteq> []"
    and "\<not> str_contains code ''for df in dfs''" and "\<not> str_contains code ''pd.concat(dfs''"
    and "\<forall>i<length tables. \<not> str_contains code (''dfs['' @ str_nat i @ '']'')"
  shows "required_dfs tables code = replicate (length tables) None"
proof -
  have "required_dfs tables code = mark_required code 0 tables"
    using assms(1-3) by (cases tables) (auto simp: required_dfs_def Let_def)
  moreover have "mark_required code 0 tables = replicate (length tables) None"
    using assms(4) by (intro nth_equalityI) (auto simp: nth_mark_required)
  ultimately show ?thesis by simp
qed

text \<open>
  Claim C4. When the code contains neither idiom and not the text \<open>dfs[i]\<close>, the
  events that \<open>execute_code\<close> adds to the trace hold no fetch for position \<open>i\<close>.
\<close>

theorem unreferenced_table_not_fetched:
  assumes "\<not> str_contains code ''for df in dfs''"
    and "\<not> str_contains code ''pd.concat(dfs''"
    and "\<not> str_contains code (''dfs['' @ str_nat i @ '']'')"
  shows "\<exists>evs. trace (snd (execute_code K self code s)) = trace s @ evs
               \<and> (\<forall>df. Fetch i df \<notin> set evs)"
proof -
  let ?req = "required_dfs (dfs self) code"
  obtain r0 s1 where g: "get_originals K 0 ?req (emit (Attempt code) s) = (r0, s1)"
    and t: "trace (snd (execute_code K self code s)) = trace s1"
    using execute_code_trace by blast
  from get_originals_trace [OF g] obtain evs where
    evs: "trace s1 = trace (emit (Attempt code) s) @ evs"
    and all: "\<forall>ev \<in> set evs. \<exists>j n. ev = Fetch (0 + j) (Connector n) \<and> j < length ?req
                  \<and> ?req ! j = Some (Connector n)" by blast
  have "Fetch i df \<notin> set evs" for df
  proof
    assume "Fetch i df \<in> set evs"
    with all obtain n where i: "i < length ?req" and some: "?req ! i = Some (Connector n)"
      by fastforce
    from i have il: "i < length (dfs self)" by simp
    then have "dfs self \<noteq> []" by auto
    then have "?req = mark_required code 0 (dfs self)"
      using assms(1,2) by (cases "dfs self") (auto simp: required_dfs_def Let_def)
    with some nth_mark_required [OF il, of code 0] assms(3) show False by simp
  qed
  then have "\<forall>df. Fetch i df \<notin> set (Attempt code # evs)" by simp
  moreover have "trace (snd (execute_code K self code s)) = trace s @ (Attempt code # evs)"
    using t evs by simp
  ultimately show ?thesis by blast
qed

theorem unreferenced_table_not_fetched_witness:
  "\<not> str_contains ''result = dfs[1]'' ''for df in dfs''
   \<and> \<not> str_contains ''result = dfs[1]'' ''pd.concat(dfs''
   \<and> \<not> str_contains ''result = dfs[1]'' (''dfs['' @ str_nat 0 @ '']'')
   \<and> (\<exists>evs. trace (snd (execute_code (example_collaborators binding_exec)
                    (example_context [Connector 10, Connector 11] 2 True) ''result = dfs[1]'' start))
                = trace start @ evs \<and> (\<forall>df. Fetch 0 df \<notin> set evs))"
proof -
  have a: "\<not> str_contains ''result = dfs[1]'' ''for df in dfs''" by code_simp
  have b: "\<not> str_contains ''result = dfs[1]'' ''pd.concat(dfs''" by code_simp
  have c: "\<not> str_contains ''result = dfs[1]'' (''dfs['' @ str_nat 0 @ '']'')" by code_simp
  from a b c unreferenced_table_not_fetched [OF a b c, of "example_collaborators binding_exec"
      "example_context [Connector 10, Connector 11] 2 True" start]
  show ?thesis by blast
qed

text \<open>In that run the second table is fetched and the first is not.\<close>

lemma ex_fetch_one:
  "trace (snd (execute_code (example_collaborators binding_exec)
                    (example_context [Connector 10, Connector 11] 2 True) ''result = dfs[1]'' start))
   = [Attempt ''result = dfs[1]'', Fetch 1 (Connector 11)]"
  by code_simp

text \<open>
  Claim C5, as the code has it. When the code contains one of the two idioms,
  \<open>_required_dfs\<close> returns every table, whatever else the code indexes, and
  \<open>_get_originals\<close> on that list is the materialization of the specification: tables
  in memory pass through, and the lazily-backed tables are fetched in list order, each
  at its position and once, their projections filling their slots. When no fetch raises,
  the events added are exactly the fetches of all lazily-backed tables; when one
  raises, its exception leaves \<open>_get_originals\<close> and only the fetches up to that one
  have been made.
\<close>

theorem need_all_idiom_fetches_in_order:
  assumes "str_contains code ''for df in dfs'' \<or> str_contains code ''pd.concat(dfs''"
  shows "required_dfs tables code = map Some tables
         \<and> (\<forall>K s r s'.
               get_originals K 0 (required_dfs tables code) s = (r, s') \<longrightarrow>
               spec_materialize K tables (world s) = (r, world s')
               \<and> (case r of
                     Inr originals \<Rightarrow> trace s' = trace s @ spec_fetches 0 tables
                   | Inl e \<Rightarrow> \<exists>k<length (spec_fetches 0 tables).
                       trace s' = trace s @ take (Suc k) (spec_fetches 0 tables)))"
proof -
  have req: "required_dfs tables code = map Some tables"
    using assms by (auto simp: required_dfs_def)
  have "spec_materialize K tables (world s) = (r, world s')
        \<and> (case r of
              Inr originals \<Rightarrow> trace s' = trace s @ spec_fetches 0 tables
            | Inl e \<Rightarrow> \<exists>k<length (spec_fetches 0 tables).
                trace s' = trace s @ take (Suc k) (spec_fetches 0 tables))"
    if "get_originals K 0 (required_dfs tables code) s = (r, s')"
    for K :: "'a collaborators" and s r s'
    using get_originals_all [of K 0 tables s r s'] that req by simp
  with req show ?thesis by blast
qed

lemma ex_need_all:
  "get_originals (example_collaborators binding_exec) 0
      (required_dfs [Connector 10, DataFrame 11, Connector 12] ''for df in dfs: print(dfs[1])'') start
   = (Inr [PyObj (DataFrame 110), PyObj (DataFrame 11), PyObj (DataFrame 112)],
      \<lparr>world = (), trace = [Fetch 0 (Connector 10), Fetch 2 (Connector 12)]\<rparr>)"
  by code_simp

theorem need_all_idiom_fetches_in_order_witness:
  "str_contains ''for df in dfs: print(dfs[1])'' ''for df in dfs''
   \<and> required_dfs [Connector 10, DataFrame 11, Connector 12] ''for df in dfs: print(dfs[1])''
       = map Some [Connector 10, DataFrame 11, Connector 12]
   \<and> spec_materialize (example_collaborators binding_exec)
         [Connector 10, DataFrame 11, Connector 12] (world start)
       = (Inr [PyObj (DataFrame 110), PyObj (DataFrame 11), PyObj (DataFrame 112)], ())
   \<and> [Fetch 0 (Connector 10), Fetch 2 (Connector 12)]
       = trace start @ spec_fetches 0 [Connector 10, DataFrame 11, Connector 12]"
proof -
  let ?tables = "[Connector 10, DataFrame 11, Connector 12]"
  have a: "str_contains ''for df in dfs: print(dfs[1])'' ''for df in dfs''" by code_simp
  then have "str_contains ''for df in dfs: print(dfs[1])'' ''for df in dfs''
             \<or> str_contains ''for df in dfs: print(dfs[1])'' ''pd.concat(dfs''" by (rule disjI1)
  from need_all_idiom_fetches_in_order [OF this, of ?tables]
  have r: "required_dfs ?tables ''for df in dfs: print(dfs[1])'' = map Some ?tables"
    and f: "\<And>(K :: unit collaborators) s r s'.
               get_originals K 0 (required_dfs ?tables ''for df in dfs: print(dfs[1])'') s = (r, s')
               \<Longrightarrow> spec_materialize K ?tables (world s) = (r, world s')
                 \<and> (case r of
                       Inr originals \<Rightarrow> trace s' = trace s @ spec_fetches 0 ?tables
                     | Inl e \<Rightarrow> \<exists>k<length (spec_fetches 0 ?tables).
                         trace s' = trace s @ take (Suc k) (spec_fetches 0 ?tables))"
    by blast+
  from f [OF ex_need_all] a r show ?thesis by simp
qed

text \<open>
  Claim C5 as stated fails when a fetch raises: the code holds the idiom, both tables
  are lazily backed, the fetch of the first is refused, and \<open>execute_code\<close> ends with
  that exception without ever fetching the second.
\<close>

theorem refused_fetch_stops_the_rest:
  "str_contains ''for df in dfs: print(df)'' ''for df in dfs''
   \<and> execute_code fetch_refused (example_context [Connector 10, Connector 11] 2 True)
         ''for df in dfs: print(df)'' start
       = (Inl (OtherException ''connection refused''),
          \<lparr>world = (), trace = [Attempt ''for df in dfs: print(df)'', Fetch 0 (Connector 10)]\<rparr>)"
  by code_simp

section \<open>The executor and the namespace\<close>

text \<open>
  Claim C6. When the namespace is built and the run of the code returns, leaving the
  namespace \<open>environment'\<close>: without a binding \<open>result\<close> there, \<open>execute_code\<close> raises
  \<open>NoResultFoundError\<close>; with one, it returns the bound value as it is.
\<close>

theorem result_binding_decides:
  assumes "build_environment K self code (emit (Attempt code) s) = (Inr environment, s1)"
    and "exec_python K (world s1) code environment = (Inr environment', w)"
  shows "fst (execute_code K self code s) =
           (case environment' ''result'' of
              None \<Rightarrow> Inl (NoResultFoundError ''No result returned'')
            | Some v \<Rightarrow> Inr v)"
  using assms by (simp add: execute_code_def split: option.splits)

lemma ex_build_one:
  "build_environment (example_collaborators ex) (example_context [DataFrame 10] 2 True)
      ''x = dfs[0]'' (emit (Attempt ''x = dfs[0]'') start)
   = (Inr [''dfs'' \<mapsto> PyList [PyObj (DataFrame 10)], ''df'' \<mapsto> PyObj (DataFrame 10)],
      \<lparr>world = (), trace = [Attempt ''x = dfs[0]'']\<rparr>)"
proof -
  have r: "required_dfs [DataFrame 10] ''x = dfs[0]'' = [Some (DataFrame 10)]" by code_simp
  show ?thesis by (simp add: build_environment_def example_context_def r) (simp add: example_defs)
qed

theorem result_binding_decides_witness:
  "fst (execute_code (example_collaborators idle_exec) (example_context [DataFrame 10] 2 True)
          ''x = dfs[0]'' start) = Inl (NoResultFoundError ''No result returned'')
   \<and> fst (execute_code (example_collaborators binding_exec) (example_context [DataFrame 10] 2 True)
          ''x = dfs[0]'' start) = Inr (PyOther ''42'')"
proof -
  let ?env = "[''dfs'' \<mapsto> PyList [PyObj (DataFrame 10)], ''df'' \<mapsto> PyObj (DataFrame 10)]"
  have idle: "exec_python (example_collaborators idle_exec)
             (world \<lparr>world = (), trace = [Attempt ''x = dfs[0]'']\<rparr>) ''x = dfs[0]'' ?env
           = (Inr ?env, ())"
    by (simp add: example_collaborators_def idle_exec_def)
  have binding: "exec_python (example_collaborators binding_exec)
             (world \<lparr>world = (), trace = [Attempt ''x = dfs[0]'']\<rparr>) ''x = dfs[0]'' ?env
           = (Inr (?env(''result'' \<mapsto> PyOther ''42'')), ())"
    by (simp add: example_collaborators_def binding_exec_def)
  from result_binding_decides [OF ex_build_one idle] result_binding_decides [OF ex_build_one binding]
  show ?thesis by simp
qed

text \<open>
  Claim C7, as the code has it. The namespace always binds \<open>dfs\<close> to the materialized
  sequence, which has one slot for each table. When that sequence has exactly one
  element, \<open>df\<close> is bound to the very value that is its element 0 (the same object, not a
  copy); when it has any other length, \<open>df\<close> is what the base namespace had (the builder
  binds no alias).
\<close>

theorem alias_bound_iff_single_slot:
  assumes "build_environment K self code s = (Inr environment, s1)"
  shows "\<exists>originals. environment ''dfs'' = Some (PyList originals)
           \<and> length originals = length (dfs self)
           \<and> (if length originals = 1 then environment ''df'' = Some (originals ! 0)
                else environment ''df'' = get_environment K ''df'')"
proof -
  obtain r0 s0 where g: "get_originals K 0 (required_dfs (dfs self) code) s = (r0, s0)"
    by fastforce
  with assms obtain originals where r0: "r0 = Inr originals"
    by (cases r0) (auto simp: build_environment_def)
  have len: "length originals = length (dfs self)"
    using get_originals_length [OF g [unfolded r0]] by simp
  have "environment ''dfs'' = Some (PyList originals)
        \<and> (if length originals = 1 then environment ''df'' = Some (originals ! 0)
             else environment ''df'' = get_environment K ''df'')"
    using assms g r0
    by (auto simp: build_environment_def Let_def split: if_splits list.splits pyobj.splits)
  with len show ?thesis by blast
qed

theorem alias_bound_iff_single_slot_witness:
  "build_environment (example_collaborators idle_exec) (example_context [DataFrame 10] 2 True)
      ''x = dfs[0]'' (emit (Attempt ''x = dfs[0]'') start)
   = (Inr [''dfs'' \<mapsto> PyList [PyObj (DataFrame 10)], ''df'' \<mapsto> PyObj (DataFrame 10)],
      \<lparr>world = (), trace = [Attempt ''x = dfs[0]'']\<rparr>)
   \<and> (\<exists>originals.
        [''dfs'' \<mapsto> PyList [PyObj (DataFrame 10)], ''df'' \<mapsto> PyObj (DataFrame 10)] ''dfs''
          = Some (PyList originals)
        \<and> length originals = 1
        \<and> [''dfs'' \<mapsto> PyList [PyObj (DataFrame 10)], ''df'' \<mapsto> PyObj (DataFrame 10)] ''df''
          = Some (originals ! 0))"
  using alias_bound_iff_single_slot [OF ex_build_one [of idle_exec]] ex_build_one [of idle_exec]
  by (simp add: example_context_def)

text \<open>
  Claim C7 as stated fails: of two tables the code indexes only \<open>dfs[1]\<close>, so exactly
  one slot is not empty, and the namespace has no \<open>df\<close>, because the sequence has two
  elements.
\<close>

theorem one_slot_of_two_has_no_alias:
  "fst (build_environment (example_collaborators idle_exec)
          (example_context [DataFrame 10, DataFrame 11] 2 True) ''result = dfs[1]'' start)
   = Inr [''dfs'' \<mapsto> PyList [PyNone, PyObj (DataFrame 11)]]"
proof -
  have r: "required_dfs [DataFrame 10, DataFrame 11] ''result = dfs[1]''
           = [None, Some (DataFrame 11)]"
    by code_simp
  show ?thesis by (simp add: build_environment_def example_context_def r) (simp add: example_defs)
qed

section \<open>The provenance utilities\<close>

text \<open>
  Claim C8 fails on the code. The assignment \<open>x = dfs[2]\<close> is on line 1 and \<open>x\<close> is used
  on line 2. When no assignment follows line 2 the loop runs to its end and the function
  returns \<open>None\<close>, although it has found the label; with a later assignment (line 3) the
  loop returns the label from inside.
\<close>

theorem nearest_assignment_lost_at_end:
  "get_df_id_by_nearest_assignment 2
     [\<lparr>lineno = 1, targets = [Name ''x''],
       rhs = Subscript (Name ''dfs'') (Constant (CInt 2))\<rparr>] ''x'' = Inr None
   \<and> get_df_id_by_nearest_assignment 2
     [\<lparr>lineno = 1, targets = [Name ''x''],
       rhs = Subscript (Name ''dfs'') (Constant (CInt 2))\<rparr>,
      \<lparr>lineno = 3, targets = [Name ''result''], rhs = Name ''x''\<rparr>] ''x''
     = Inr (Some ''dfs[2]'')"
  by code_simp

text \<open>
  More generally, when every assignment is at or before the current line, no label is
  ever returned.
\<close>

lemma scan_assignments_runs_out:
  "list_all (\<lambda>a. lineno a \<le> current_lineno) assignments \<Longrightarrow>
   scan_assignments current_lineno target_name nearest assignments = Inr None
   \<or> scan_assignments current_lineno target_name nearest assignments = Inl IndexError"
proof (induction assignments arbitrary: nearest)
  case Nil
  then show ?case by simp
next
  case (Cons a assignments)
  then have le: "\<not> lineno a > current_lineno"
    and rest: "list_all (\<lambda>a. lineno a \<le> current_lineno) assignments"
    by auto
  show ?case
  proof (cases "try_assignment target_name a")
    case (Inl e)
    then have "e = IndexError"
      by (auto simp: try_assignment_def Let_def split: sum.splits list.splits if_splits)
    with Inl le show ?thesis by simp
  next
    case (Inr l)
    with le Cons.IH [OF rest] show ?thesis by (cases l) auto
  qed
qed

lemma no_later_assignment_no_label:
  assumes "list_all (\<lambda>a. lineno a \<le> current_lineno) assignments"
  shows "get_df_id_by_nearest_assignment current_lineno assignments target_name = Inr None
   \<or> get_df_id_by_nearest_assignment current_lineno assignments target_name = Inl IndexError"
proof -
  have "list_all (\<lambda>a. lineno a \<le> current_lineno) (sort_key lineno assignments)"
    using assms by (simp add: list_all_iff)
  then show ?thesis
    unfolding get_df_id_by_nearest_assignment_def by (rule scan_assignments_runs_out)
qed

text \<open>
  Claim C9, as the code has it. On an access chain the generator ends without an
  exception and yields the tokens the specification lists, base first and index last:
  the attribute name of a call, the tokens of a subscript's base followed by its literal
  index, the identifier of a name, the value of a literal.
\<close>

theorem tokenize_access_chain:
  "access_chain e \<Longrightarrow> tokenize_operand e = (spec_tokenize e, None)"
  by (induction e rule: access_chain.induct) auto

theorem tokenize_access_chain_witness:
  "access_chain (Subscript (Subscript (Subscript (Name ''foo'') (Constant (CInt 2)))
                   (Constant (CInt 1))) (Constant (CInt 0)))
   \<and> tokenize_operand (Subscript (Subscript (Subscript (Name ''foo'') (Constant (CInt 2)))
                   (Constant (CInt 1))) (Constant (CInt 0)))
     = ([TStr ''foo'', TConst (CInt 2), TConst (CInt 1), TConst (CInt 0)], None)"
  using tokenize_access_chain
    [of "Subscript (Subscript (Subscript (Name ''foo'') (Constant (CInt 2)))
                   (Constant (CInt 1))) (Constant (CInt 0))"]
  by simp

text \<open>
  Claim C9 as stated fails for a call whose callee is not an attribute, such as
  \<open>len(df)\<close>: \<open>operand_node.func.attr\<close> raises \<open>AttributeError\<close> and nothing is yielded.
  A subscript by a variable, \<open>dfs[i]\<close>, ends the same way.
\<close>

theorem tokenize_plain_call_raises:
  "tokenize_operand (Call (Name ''len'') [Name ''df'']) = ([], Some AttributeError)"
  by simp

lemma tokenize_variable_index_raises:
  "tokenize_operand (Subscript (Name ''dfs'') (Name ''i'')) = ([], Some AttributeError)"
  by simp


end
